theory Spec2Isabelle
  imports Main
begin

section \<open>The command queue of drawxterm.js\<close>

text \<open>
  The repository holds two revisions of \<^verbatim>\<open>drawxterm.js\<close>: the promise-based one
  (\<^verbatim>\<open>src/unnamed/part_000\<close>) and an earlier one (\<^verbatim>\<open>src/js/drawxterm.js\<close>).
  The classes \<^verbatim>\<open>DrawCommand\<close> and \<^verbatim>\<open>DrawCommandQueue\<close> (lines 8-96) are the same
  text in both. Definitions whose source differs between the two revisions come in
  pairs; the one taken from the earlier revision carries the suffix \<^verbatim>\<open>_old\<close>.

  JavaScript objects live on a heap and are handled through references. The heap of
  \<^verbatim>\<open>DrawCommand\<close> objects is a list; a reference is an index into it, \<^verbatim>\<open>null\<close> is
  \<open>None\<close>. \<^verbatim>\<open>new DrawCommand (...)\<close> appends a cell, so a new reference is always fresh,
  and nothing is ever freed (garbage stays in the list).
\<close>

record DrawCommand =
  command :: string
  toEcho :: bool
  myNext :: "nat option"

type_synonym heap = "DrawCommand list"

definition DrawCommand_new :: "string \<Rightarrow> bool \<Rightarrow> heap \<Rightarrow> nat \<times> heap" where
  "DrawCommand_new theCmd theToEcho h =
     (length h, h @ [\<lparr>command = theCmd, toEcho = theToEcho, myNext = None\<rparr>])"

record DrawCommandQueue =
  myFirst :: "nat option"
  myLast :: "nat option"
  myLength :: int

definition DrawCommandQueue_new :: DrawCommandQueue where
  "DrawCommandQueue_new = \<lparr>myFirst = None, myLast = None, myLength = 0\<rparr>"

definition isEmpty :: "DrawCommandQueue \<Rightarrow> bool" where
  "isEmpty q = (myLength q = 0)"

definition extent :: "DrawCommandQueue \<Rightarrow> int" where
  "extent q = myLength q"

text \<open>
  \<^verbatim>\<open>add\<close> and \<^verbatim>\<open>pop\<close> mutate the queue object and one heap cell each; the model
  passes heap and queue in and out. A reference held by a queue always points into
  the heap (JavaScript has no dangling references), which is part of the invariant
  \<open>queue_inv\<close> below; outside it \<open>h ! a\<close> has no meaning.
\<close>

definition add :: "nat \<Rightarrow> heap \<times> DrawCommandQueue \<Rightarrow> heap \<times> DrawCommandQueue" where
  "add theCmd hq =
     (case hq of (h, q) \<Rightarrow>
        (case myLast q of
           Some l \<Rightarrow>
             (h[l := (h ! l)\<lparr>myNext := Some theCmd\<rparr>],
              q\<lparr>myLast := Some theCmd, myLength := myLength q + 1\<rparr>)
         | None \<Rightarrow>
             (h, q\<lparr>myFirst := Some theCmd, myLast := Some theCmd, myLength := 1\<rparr>)))"

definition pop :: "heap \<times> DrawCommandQueue \<Rightarrow> nat option \<times> heap \<times> DrawCommandQueue" where
  "pop hq =
     (case hq of (h, q) \<Rightarrow>
        (case myFirst q of
           None \<Rightarrow> (None, h, q)
         | Some anItem \<Rightarrow>
             (let q1 = q\<lparr>myFirst := myNext (h ! anItem)\<rparr>;
                  q2 = q1\<lparr>myLength := myLength q1 - 1\<rparr>;
                  q3 = (if myLength q2 = 0 then q2\<lparr>myLast := None\<rparr> else q2);
                  h' = h[anItem := (h ! anItem)\<lparr>myNext := None\<rparr>]
              in (Some anItem, h', q3))))"

subsection \<open>Sequences of queue operations\<close>

text \<open>
  The only caller of \<^verbatim>\<open>add\<close> is \<^verbatim>\<open>_termQueueCommand\<close>, which passes a newly
  constructed \<^verbatim>\<open>DrawCommand\<close>. An \<open>Add\<close> operation is that pair of steps. A \<open>Pop\<close>
  that returns \<^verbatim>\<open>null\<close> contributes nothing to the output.
\<close>

datatype queue_op = Add string bool | Pop

fun run_ops :: "queue_op list \<Rightarrow> heap \<times> DrawCommandQueue
    \<Rightarrow> (string \<times> bool) list \<times> heap \<times> DrawCommandQueue" where
  "run_ops [] hq = ([], hq)"
| "run_ops (Add c e # ops) (h, q) =
     (case DrawCommand_new c e h of (a, h1) \<Rightarrow> run_ops ops (add a (h1, q)))"
| "run_ops (Pop # ops) hq =
     (case pop hq of
        (None, hq') \<Rightarrow> run_ops ops hq'
      | (Some a, h', q') \<Rightarrow>
          (case run_ops ops (h', q') of
             (outs, r) \<Rightarrow> ((command (h' ! a), toEcho (h' ! a)) # outs, r)))"

primrec added :: "queue_op list \<Rightarrow> (string \<times> bool) list" where
  "added [] = []"
| "added (x # ops) = (case x of Add c e \<Rightarrow> (c, e) # added ops | Pop \<Rightarrow> added ops)"

text \<open>
  The queue as the specification words it: an ordered sequence of commands, to which
  enqueue appends at the end and from which dequeue takes the first, or nothing when
  the sequence is empty. \<open>spec_queue ops pending\<close> gives the commands the dequeues of
  \<open>ops\<close> return, and the sequence left. \<open>adds\<close> turns commands into \<open>Add\<close> operations.
\<close>

fun spec_queue :: "queue_op list \<Rightarrow> (string \<times> bool) list
    \<Rightarrow> (string \<times> bool) list \<times> (string \<times> bool) list" where
  "spec_queue [] pending = ([], pending)"
| "spec_queue (Add c e # ops) pending = spec_queue ops (pending @ [(c, e)])"
| "spec_queue (Pop # ops) [] = spec_queue ops []"
| "spec_queue (Pop # ops) (x # pending) =
     (case spec_queue ops pending of (outs, r) \<Rightarrow> (x # outs, r))"

definition adds :: "(string \<times> bool) list \<Rightarrow> queue_op list" where
  "adds xs = map (\<lambda>x. Add (fst x) (snd x)) xs"

subsection \<open>The linked list behind a queue\<close>

text \<open>
  \<open>qpath h p as\<close>: following \<^verbatim>\<open>_myNext\<close> from the reference \<open>p\<close> visits the nodes \<open>as\<close>
  and then reaches \<^verbatim>\<open>null\<close>. \<open>queue_inv h q as\<close>: the fields of \<open>q\<close> describe the list
  \<open>as\<close> of distinct nodes. \<open>contents\<close> reads the command text and echo flag of each
  node. \<open>nodes_from\<close> walks the list for at most \<open>n\<close> steps; \<open>live_nodes\<close> gives it as
  many steps as the heap has cells, which is enough for a list without repetition.
\<close>

primrec qpath :: "heap \<Rightarrow> nat option \<Rightarrow> nat list \<Rightarrow> bool" where
  "qpath h p [] = (p = None)"
| "qpath h p (a # as) = (p = Some a \<and> a < length h \<and> qpath h (myNext (h ! a)) as)"

definition queue_inv :: "heap \<Rightarrow> DrawCommandQueue \<Rightarrow> nat list \<Rightarrow> bool" where
  "queue_inv h q as =
     (qpath h (myFirst q) as \<and> distinct as \<and> myLength q = int (length as) \<and>
      myLast q = (if as = [] then None else Some (last as)))"

definition contents :: "heap \<Rightarrow> nat list \<Rightarrow> (string \<times> bool) list" where
  "contents h as = map (\<lambda>a. (command (h ! a), toEcho (h ! a))) as"

fun nodes_from :: "heap \<Rightarrow> nat \<Rightarrow> nat option \<Rightarrow> nat list" where
  "nodes_from h 0 p = []"
| "nodes_from h (Suc n) None = []"
| "nodes_from h (Suc n) (Some a) = a # nodes_from h n (myNext (h ! a))"

definition live_nodes :: "heap \<Rightarrow> DrawCommandQueue \<Rightarrow> nat list" where
  "live_nodes h q = nodes_from h (length h) (myFirst q)"

definition queued :: "heap \<times> DrawCommandQueue \<Rightarrow> (string \<times> bool) list" where
  "queued hq = (case hq of (h, q) \<Rightarrow> contents h (live_nodes h q))"

section \<open>The terminal object\<close>

subsection \<open>JavaScript strings and errors\<close>

text \<open>
  Strings are lists of 8-bit characters. \<^verbatim>\<open>"\n\r"\<close>, \<^verbatim>\<open>"\x1B"\<close>, \<^verbatim>\<open>'\b'\<close>, \<^verbatim>\<open>"\x7f"\<close>,
  \<^verbatim>\<open>"\x0d"\<close> and the backslash are written by their codes.
\<close>

definition LFCR :: string where
  "LFCR = [CHR 0x0A, CHR 0x0D]"

definition ESC :: char where
  "ESC = CHR 0x1B"

definition erase_seq :: string where
  "erase_seq = [CHR 0x08, CHR '' '', CHR 0x08]"

definition startsWith :: "string \<Rightarrow> string \<Rightarrow> bool" where
  "startsWith s p = (take (length p) s = p)"

definition endsWith :: "string \<Rightarrow> string \<Rightarrow> bool" where
  "endsWith s p = (length p \<le> length s \<and> drop (length s - length p) s = p)"

definition substring_from :: "string \<Rightarrow> nat \<Rightarrow> string" where
  "substring_from s n = drop n s"

definition substring :: "string \<Rightarrow> nat \<Rightarrow> nat \<Rightarrow> string" where
  "substring s i j = (let a = min (min i j) (length s); b = min (max i j) (length s)
                      in take (b - a) (drop a s))"

definition js_space :: "char \<Rightarrow> bool" where
  "js_space c = (c \<in> set [CHR 0x09, CHR 0x0A, CHR 0x0B, CHR 0x0C, CHR 0x0D, CHR 0x20, CHR 0xA0])"

definition trim :: "string \<Rightarrow> string" where
  "trim s = rev (dropWhile js_space (rev (dropWhile js_space s)))"

definition replace_LF :: "string \<Rightarrow> string" where
  "replace_LF s = concat (map (\<lambda>c. if c = CHR 0x0A then LFCR else [c]) s)"

function number_toString :: "nat \<Rightarrow> string" where
  "number_toString n =
     (if n < 10 then [''0123456789'' ! n]
      else number_toString (n div 10) @ [''0123456789'' ! (n mod 10)])"
  by pat_completeness auto
termination
  by (relation "measure (\<lambda>n. n)") auto

declare number_toString.simps [simp del]

text \<open>
  An \<^verbatim>\<open>Error\<close> object is its name and its message; concatenating it to a string
  calls \<^verbatim>\<open>Error.prototype.toString\<close>. A value thrown by the interpreter is kept as
  the text it converts to.
\<close>

datatype js_error = JsError string string

fun error_toString :: "js_error \<Rightarrow> string" where
  "error_toString (JsError name msg) =
     (if name = [] then msg else if msg = [] then name else name @ '': '' @ msg)"

text \<open>
  \<^verbatim>\<open>InternalError\<close> is not declared in either file: it is a global that only some
  hosts define (Firefox does; V8 and WebKit do not). Where it is defined,
  \<^verbatim>\<open>new InternalError (theErr)\<close> is the error below; where it is not, evaluating the
  name throws a \<^verbatim>\<open>ReferenceError\<close>. Which of the two holds is a field of the host.
\<close>

definition InternalError :: "string \<Rightarrow> js_error" where
  "InternalError theErr = JsError ''InternalError'' theErr"

definition ReferenceError :: "string \<Rightarrow> js_error" where
  "ReferenceError msg = JsError ''ReferenceError'' msg"

definition Error :: "string \<Rightarrow> js_error" where
  "Error msg = JsError ''Error'' msg"

text \<open>
  What a call of \<^verbatim>\<open>termEvaluateCommand\<close> gives its caller: a promise that is already
  resolved, one that is already rejected, one that is still pending, or no promise at
  all because the call threw.
\<close>

datatype evaluation = Resolved | Rejected js_error | Pending | Thrown js_error

text \<open>
  The promise \<^verbatim>\<open>_commandJsupload\<close> returns: rejected at once (no source was named), or
  pending while the files are fetched or picked.
\<close>

datatype upload = UploadRejected js_error | UploadPending

subsection \<open>State and collaborators\<close>

text \<open>
  The fields of \<^verbatim>\<open>DrawTerm\<close> that the queue, the line editor and the drain loop touch.
  \<open>myTerm\<close> is the xterm.js \<^verbatim>\<open>Terminal\<close>: the texts passed to its \<^verbatim>\<open>write\<close>, oldest
  first, or \<open>None\<close> for \<^verbatim>\<open>null\<close>. \<open>commands\<close> is the heap of \<^verbatim>\<open>DrawCommand\<close> objects.
  \<open>timers\<close> holds the delay of every pending \<^verbatim>\<open>setTimeout\<close> whose callback is
  \<^verbatim>\<open>_termPopCommandFromQueue\<close>. \<open>interp\<close> is the state of the WebAssembly interpreter,
  of which nothing is known.
\<close>

record 'i DrawTerm =
  myTerm :: "string list option"
  myTermHello :: string
  myTermInCounter :: nat
  myTermLine :: string
  myTermHistory :: "string list"
  myTermHistoryPos :: int
  myCmdTimeout :: int
  myCmdQueue :: DrawCommandQueue
  commands :: heap
  timers :: "int list"
  interp :: 'i

text \<open>
  What the interpreter and the file commands do to a \<^verbatim>\<open>DrawTerm\<close> they do through
  its methods; a call of a collaborator yields the list of those calls, in order.
\<close>

datatype callback =
    Print string
  | PrintErr string
  | PrintMessage string int
  | TerminalWriteLine string
  | TerminalWriteError string
  | TerminalPrintInputLine

text \<open>
  The collaborators: \<^verbatim>\<open>isComplete\<close> and \<^verbatim>\<open>eval\<close> are methods of the WebAssembly
  module (\<^verbatim>\<open>eval\<close> may throw). \<^verbatim>\<open>_commandJsdownload\<close> and \<^verbatim>\<open>_commandJsupload\<close> read
  the emulated file system, the DOM and the network; they are taken by their outcome:
  the methods they call before they return, and the boolean, respectively the promise,
  returned. \<open>internalErrorDefined\<close> says whether the host has the global
  \<^verbatim>\<open>InternalError\<close>.
\<close>

record 'i host =
  isComplete :: "string \<Rightarrow> bool"
  eval :: "'i \<Rightarrow> string \<Rightarrow> 'i \<times> callback list \<times> string option"
  commandJsdownload :: "'i \<Rightarrow> string \<Rightarrow> 'i \<times> callback list \<times> bool"
  commandJsupload :: "'i \<Rightarrow> string \<Rightarrow> 'i \<times> callback list \<times> upload"
  internalErrorDefined :: bool

text \<open>
  The constructor, in a browser that supports WebAssembly: the values set in the
  class-properties region, and the terminal opened with the loading message written
  to it. The timer of \<^verbatim>\<open>_termWasmLoadProgress\<close> is not a drain timer and is not kept.
\<close>

definition DrawTerm_new :: "'i \<Rightarrow> 'i DrawTerm" where
  "DrawTerm_new i =
     \<lparr>myTerm = Some [''Loading/preparing 'DRAWEXE.wasm'...''], myTermHello = ''Draw'',
      myTermInCounter = 0, myTermLine = [], myTermHistory = [], myTermHistoryPos = -1,
      myCmdTimeout = 10, myCmdQueue = DrawCommandQueue_new, commands = [], timers = [],
      interp = i\<rparr>"

subsection \<open>Writing to the terminal\<close>

definition terminalWrite :: "string \<Rightarrow> 'i DrawTerm \<Rightarrow> 'i DrawTerm" where
  "terminalWrite theText s =
     (case myTerm s of None \<Rightarrow> s | Some out \<Rightarrow> s\<lparr>myTerm := Some (out @ [theText])\<rparr>)"

definition terminalWriteMultiline :: "string \<Rightarrow> 'i DrawTerm \<Rightarrow> 'i DrawTerm" where
  "terminalWriteMultiline theText s =
     (case myTerm s of None \<Rightarrow> s | Some out \<Rightarrow> s\<lparr>myTerm := Some (out @ [replace_LF theText])\<rparr>)"

definition terminalWriteLine :: "string \<Rightarrow> 'i DrawTerm \<Rightarrow> 'i DrawTerm" where
  "terminalWriteLine theText s = terminalWrite (LFCR @ theText) s"

definition terminalWriteTrace :: "string \<Rightarrow> 'i DrawTerm \<Rightarrow> 'i DrawTerm" where
  "terminalWriteTrace theText s =
     terminalWriteMultiline (LFCR @ ESC # ''[33m'' @ theText @ ESC # ''[0m'') s"

definition terminalWriteInfo :: "string \<Rightarrow> 'i DrawTerm \<Rightarrow> 'i DrawTerm" where
  "terminalWriteInfo theText s =
     terminalWriteMultiline (LFCR @ ESC # ''[32;1m'' @ theText @ ESC # ''[0m'') s"

definition terminalWriteWarning :: "string \<Rightarrow> 'i DrawTerm \<Rightarrow> 'i DrawTerm" where
  "terminalWriteWarning theText s =
     terminalWriteMultiline (LFCR @ ESC # ''[33;1m'' @ theText @ ESC # ''[0m'') s"

definition terminalWriteError :: "string \<Rightarrow> 'i DrawTerm \<Rightarrow> 'i DrawTerm" where
  "terminalWriteError theText s =
     terminalWriteMultiline (LFCR @ ESC # ''[31;1m'' @ theText @ ESC # ''[0m'') s"

definition prompt :: "string \<Rightarrow> nat \<Rightarrow> string" where
  "prompt hello n = ESC # ''[32;1m'' @ hello @ ''['' @ number_toString n @ '']>'' @ ESC # ''[0m ''"

definition terminalPrintInputLine :: "'i DrawTerm \<Rightarrow> 'i DrawTerm" where
  "terminalPrintInputLine s =
     (let s1 = terminalWrite LFCR s;
          s2 = s1\<lparr>myTermInCounter := myTermInCounter s1 + 1\<rparr>
      in terminalWrite (prompt (myTermHello s2) (myTermInCounter s2)) s2)"

definition printMessage :: "string \<Rightarrow> int \<Rightarrow> 'i DrawTerm \<Rightarrow> 'i DrawTerm" where
  "printMessage theText theGravity s =
     (if theGravity = 0 then terminalWriteTrace theText s
      else if theGravity = 1 then terminalWriteInfo theText s
      else if theGravity = 2 then terminalWriteWarning theText s
      else if theGravity = 3 \<or> theGravity = 4 then terminalWriteError theText s
      else terminalWriteMultiline theText (terminalWrite LFCR s))"

fun run_callback :: "callback \<Rightarrow> 'i DrawTerm \<Rightarrow> 'i DrawTerm" where
  "run_callback (Print t) s = printMessage t (-1) s"
| "run_callback (PrintErr t) s = printMessage t (-1) s"
| "run_callback (PrintMessage t g) s = printMessage t g s"
| "run_callback (TerminalWriteLine t) s = terminalWriteLine t s"
| "run_callback (TerminalWriteError t) s = terminalWriteError t s"
| "run_callback TerminalPrintInputLine s = terminalPrintInputLine s"

definition run_callbacks :: "callback list \<Rightarrow> 'i DrawTerm \<Rightarrow> 'i DrawTerm" where
  "run_callbacks cbs s = foldl (\<lambda>t cb. run_callback cb t) s cbs"

subsection \<open>Evaluating a command\<close>

text \<open>
  \<^verbatim>\<open>termEvaluateCommand\<close> of the promise-based revision (part_000, lines 313-360).
  Its \<^verbatim>\<open>catch\<close> block returns a rejected promise where the host defines
  \<^verbatim>\<open>InternalError\<close>, and throws a \<^verbatim>\<open>ReferenceError\<close> itself where the host does not.
\<close>

definition termEvaluateCommand ::
    "'i host \<Rightarrow> string \<Rightarrow> 'i DrawTerm \<Rightarrow> evaluation \<times> 'i DrawTerm" where
  "termEvaluateCommand hst theCmd s =
     (if theCmd = [] then (Resolved, s)
      else
        let s1 = s\<lparr>myTermHistoryPos := -1\<rparr>;
            s2 = s1\<lparr>myTermHistory := myTermHistory s1 @ [theCmd]\<rparr>;
            download = (\<lambda>args.
               case commandJsdownload hst (interp s2) args of
                 (i, cbs, aRes) \<Rightarrow>
                   (if aRes then Resolved else Rejected (Error ''Command evaluation failed''),
                    run_callbacks cbs (s2\<lparr>interp := i\<rparr>)));
            upload = (\<lambda>args.
               case commandJsupload hst (interp s2) args of
                 (i, cbs, r) \<Rightarrow>
                   (case r of UploadRejected e \<Rightarrow> Rejected e | UploadPending \<Rightarrow> Pending,
                    run_callbacks cbs (s2\<lparr>interp := i\<rparr>)))
        in if startsWith theCmd ''jsdownload '' then download (trim (substring_from theCmd 11))
           else if startsWith theCmd ''jsdown '' then download (trim (substring_from theCmd 7))
           else if startsWith theCmd ''download '' then download (trim (substring_from theCmd 9))
           else if startsWith theCmd ''jsupload '' then upload (trim (substring_from theCmd 9))
           else if startsWith theCmd ''upload '' then upload (trim (substring_from theCmd 7))
           else
             (case eval hst (interp s2) theCmd of
                (i, cbs, thrown) \<Rightarrow>
                  (case thrown of
                     None \<Rightarrow> Resolved
                   | Some theErr \<Rightarrow>
                       if internalErrorDefined hst then Rejected (InternalError theErr)
                       else Thrown (ReferenceError ''InternalError is not defined''),
                   run_callbacks cbs (s2\<lparr>interp := i\<rparr>))))"

subsection \<open>The drain loop\<close>

text \<open>
  \<open>setTimeout_pop\<close> is \<^verbatim>\<open>setTimeout (() => { this._termPopCommandFromQueue(); },
  this._myCmdTimeout)\<close>; \<open>termQueueCommand\<close> is \<^verbatim>\<open>_termQueueCommand\<close> (part_000, lines
  673-683; the same text in the earlier revision).
\<close>

definition setTimeout_pop :: "'i DrawTerm \<Rightarrow> 'i DrawTerm" where
  "setTimeout_pop s = s\<lparr>timers := timers s @ [myCmdTimeout s]\<rparr>"

definition termQueueCommand :: "string \<Rightarrow> bool \<Rightarrow> 'i DrawTerm \<Rightarrow> 'i DrawTerm" where
  "termQueueCommand theCmd theToEcho s =
     (case DrawCommand_new theCmd theToEcho (commands s) of
        (c, h1) \<Rightarrow>
          (case add c (h1, myCmdQueue s) of
             (h2, q2) \<Rightarrow>
               (let s1 = s\<lparr>commands := h2, myCmdQueue := q2\<rparr>
                in if extent (myCmdQueue s1) = 1 then setTimeout_pop s1 else s1)))"

text \<open>
  \<^verbatim>\<open>_termPopCommandFromQueue\<close> (part_000, lines 688-718): \<open>pop_then\<close> and \<open>pop_catch\<close>
  are the two functions given to \<^verbatim>\<open>then\<close> and \<^verbatim>\<open>catch\<close>. The handlers of a promise
  that is already settled run when the timer callback has returned, before any other
  event, so they belong to the step. A pending promise leaves the step with the
  handlers waiting: \<open>pop_then\<close> or \<open>pop_catch\<close> runs at a later event, on the state of
  that time. The call of \<^verbatim>\<open>termEvaluateCommand\<close> stands in no \<^verbatim>\<open>try\<close>, so what it throws
  leaves the step with no handler run; the step returns that error beside the state.
\<close>

definition pop_then :: "'i DrawTerm \<Rightarrow> 'i DrawTerm" where
  "pop_then s =
     (let s1 = terminalPrintInputLine s
      in if \<not> isEmpty (myCmdQueue s1) then setTimeout_pop s1 else s1)"

definition pop_catch :: "js_error \<Rightarrow> 'i DrawTerm \<Rightarrow> 'i DrawTerm" where
  "pop_catch theErr s =
     (let s1 = terminalWriteError (error_toString theErr) s;
          s2 = terminalPrintInputLine s1
      in if \<not> isEmpty (myCmdQueue s2) then setTimeout_pop s2 else s2)"

definition pop_settle :: "evaluation \<times> 'i DrawTerm \<Rightarrow> js_error option \<times> 'i DrawTerm" where
  "pop_settle ps =
     (case ps of
        (Resolved, s) \<Rightarrow> (None, pop_then s)
      | (Rejected theErr, s) \<Rightarrow> (None, pop_catch theErr s)
      | (Pending, s) \<Rightarrow> (None, s)
      | (Thrown theErr, s) \<Rightarrow> (Some theErr, s))"

definition pop_echo :: "nat \<Rightarrow> 'i DrawTerm \<Rightarrow> 'i DrawTerm" where
  "pop_echo aCmd s =
     (if toEcho (commands s ! aCmd) then terminalWrite (command (commands s ! aCmd)) s else s)"

definition termPopCommandFromQueue ::
    "'i host \<Rightarrow> 'i DrawTerm \<Rightarrow> js_error option \<times> 'i DrawTerm" where
  "termPopCommandFromQueue hst s =
     (case pop (commands s, myCmdQueue s) of
        (r, h, q) \<Rightarrow>
          (let s1 = s\<lparr>commands := h, myCmdQueue := q\<rparr>
           in case r of
                None \<Rightarrow> (None, s1)
              | Some aCmd \<Rightarrow>
                  (let s2 = pop_echo aCmd s1
                   in pop_settle (termEvaluateCommand hst (command (commands s2 ! aCmd)) s2))))"

subsection \<open>Key events\<close>

text \<open>
  \<^verbatim>\<open>_onTermKeyEvent\<close> (part_000, lines 538-605) reads four fields of the event.
  \<open>clear_input\<close> is the loop that erases the current input, one character a time;
  \<open>history_step\<close> is the ArrowUp/ArrowDown case from that loop on. Clamping keeps the
  cursor inside the history, so the indexed read is always in range.
  \<^verbatim>\<open>document.execCommand ('copy')\<close> does not touch the terminal object.
\<close>

record KeyboardEvent =
  keyCode :: int
  type :: string
  key :: string
  ctrlKey :: bool

function clear_input :: "'i DrawTerm \<Rightarrow> 'i DrawTerm" where
  "clear_input s =
     (if length (myTermLine s) > 0
      then clear_input ((terminalWrite erase_seq s)
             \<lparr>myTermLine := substring (myTermLine s) 0 (length (myTermLine s) - 1)\<rparr>)
      else s)"
  by pat_completeness auto
termination
  by (relation "measure (\<lambda>s. length (myTermLine s))") (auto simp: substring_def)

declare clear_input.simps [simp del]

definition history_step :: "int \<Rightarrow> 'i DrawTerm \<Rightarrow> 'i DrawTerm" where
  "history_step aDir s =
     (let s1 = clear_input s
      in if int (length (myTermHistory s1)) \<le> 0 then s1
         else
           (let s2 = (if myTermHistoryPos s1 \<noteq> -1
                      then (let t = s1\<lparr>myTermHistoryPos := myTermHistoryPos s1 + aDir\<rparr>
                            in t\<lparr>myTermHistoryPos :=
                                 max (min (myTermHistoryPos t) (int (length (myTermHistory t)) - 1)) 0\<rparr>)
                      else s1\<lparr>myTermHistoryPos := int (length (myTermHistory s1)) - 1\<rparr>);
                aHist = myTermHistory s2 ! nat (myTermHistoryPos s2)
            in terminalWrite aHist (s2\<lparr>myTermLine := aHist\<rparr>)))"

definition onTermKeyEvent :: "KeyboardEvent \<Rightarrow> 'i DrawTerm \<Rightarrow> bool \<times> 'i DrawTerm" where
  "onTermKeyEvent theEvent s =
     (if keyCode theEvent = 38 \<or> keyCode theEvent = 40 then
        (let aDir = (if keyCode theEvent = 38 then -1 else 1)
         in if type theEvent \<noteq> ''keydown'' then (False, s)
            else (False, history_step aDir s))
      else if keyCode theEvent = 37 \<or> keyCode theEvent = 39 \<or> keyCode theEvent = 46 then (False, s)
      else if keyCode theEvent = 33 \<or> keyCode theEvent = 34 \<or> keyCode theEvent = 35
              \<or> keyCode theEvent = 36 then (False, s)
      else if key theEvent = ''c'' \<and> ctrlKey theEvent then (False, s)
      else if key theEvent = ''v'' \<and> ctrlKey theEvent then (False, s)
      else (True, s))"

subsection \<open>Character input\<close>

text \<open>
  \<^verbatim>\<open>_onTermDataInput\<close> (part_000, lines 611-666): \<open>data_char\<close> is the body of the loop
  over the characters of the event, with the local \<^verbatim>\<open>aNbNewLines\<close> beside the state.
\<close>

definition data_char :: "'i host \<Rightarrow> char \<Rightarrow> 'i DrawTerm \<times> nat \<Rightarrow> 'i DrawTerm \<times> nat" where
  "data_char hst aChar sn =
     (case sn of (s, aNbNewLines) \<Rightarrow>
        if aChar = CHR 0x7F then
          (if length (myTermLine s) > 0
           then (let s1 = (if aNbNewLines = 0 then terminalWrite erase_seq s else s)
                 in (s1\<lparr>myTermLine := substring (myTermLine s1) 0 (length (myTermLine s1) - 1)\<rparr>,
                     aNbNewLines))
           else (s, aNbNewLines))
        else if aChar = CHR 0x0D then
          (let aCmd = myTermLine s
           in if endsWith aCmd [CHR 0x5C] then
                (let s1 = s\<lparr>myTermLine := substring (myTermLine s) 0 (length (myTermLine s) - 1)\<rparr>
                 in (if aNbNewLines = 0 then terminalWrite (LFCR @ ''> '') s1 else s1, aNbNewLines))
              else if \<not> isComplete hst aCmd then
                (let s1 = s\<lparr>myTermLine := myTermLine s @ LFCR\<rparr>
                 in (if aNbNewLines = 0 then terminalWrite (LFCR @ ''> '') s1 else s1, aNbNewLines))
              else
                (termQueueCommand aCmd (aNbNewLines \<noteq> 0) (s\<lparr>myTermLine := []\<rparr>), aNbNewLines + 1))
        else
          (let s1 = (if aNbNewLines = 0 then terminalWrite [aChar] s else s)
           in (s1\<lparr>myTermLine := myTermLine s1 @ [aChar]\<rparr>, aNbNewLines)))"

definition onTermDataInput :: "'i host \<Rightarrow> string \<Rightarrow> 'i DrawTerm \<Rightarrow> 'i DrawTerm" where
  "onTermDataInput hst theEvent s = fst (foldl (\<lambda>sn aChar. data_char hst aChar sn) (s, 0) theEvent)"

section \<open>The earlier revision\<close>

text \<open>
  The methods of \<^verbatim>\<open>src/js/drawxterm.js\<close> whose text differs from the promise-based
  revision. There an evaluation either returns or throws; a thrown value is \<open>Some\<close>
  of its text, beside the state reached when it was thrown.
\<close>

definition terminalWriteTrace_old :: "string \<Rightarrow> 'i DrawTerm \<Rightarrow> 'i DrawTerm" where
  "terminalWriteTrace_old theText s =
     terminalWrite (LFCR @ ESC # ''[33m'' @ theText @ ESC # ''[0m'') s"

definition terminalWriteInfo_old :: "string \<Rightarrow> 'i DrawTerm \<Rightarrow> 'i DrawTerm" where
  "terminalWriteInfo_old theText s =
     terminalWrite (LFCR @ ESC # ''[32;1m'' @ theText @ ESC # ''[0m'') s"

definition terminalWriteWarning_old :: "string \<Rightarrow> 'i DrawTerm \<Rightarrow> 'i DrawTerm" where
  "terminalWriteWarning_old theText s =
     terminalWrite (LFCR @ ESC # ''[33;1m'' @ theText @ ESC # ''[0m'') s"

definition terminalWriteError_old :: "string \<Rightarrow> 'i DrawTerm \<Rightarrow> 'i DrawTerm" where
  "terminalWriteError_old theText s =
     terminalWrite (LFCR @ ESC # ''[31;1m'' @ theText @ ESC # ''[0m'') s"

definition print_old :: "string \<Rightarrow> 'i DrawTerm \<Rightarrow> 'i DrawTerm" where
  "print_old theText s = terminalWrite theText (terminalWrite LFCR s)"

definition printMessage_old :: "string \<Rightarrow> int \<Rightarrow> 'i DrawTerm \<Rightarrow> 'i DrawTerm" where
  "printMessage_old theText theGravity s =
     (if theGravity = 0 then terminalWriteTrace_old theText s
      else if theGravity = 1 then terminalWriteInfo_old theText s
      else if theGravity = 2 then terminalWriteWarning_old theText s
      else if theGravity = 3 \<or> theGravity = 4 then terminalWriteError_old theText s
      else terminalWrite theText (terminalWrite LFCR s))"

fun run_callback_old :: "callback \<Rightarrow> 'i DrawTerm \<Rightarrow> 'i DrawTerm" where
  "run_callback_old (Print t) s = print_old t s"
| "run_callback_old (PrintErr t) s = print_old t s"
| "run_callback_old (PrintMessage t g) s = printMessage_old t g s"
| "run_callback_old (TerminalWriteLine t) s = terminalWriteLine t s"
| "run_callback_old (TerminalWriteError t) s = terminalWriteError_old t s"
| "run_callback_old TerminalPrintInputLine s = terminalPrintInputLine s"

definition run_callbacks_old :: "callback list \<Rightarrow> 'i DrawTerm \<Rightarrow> 'i DrawTerm" where
  "run_callbacks_old cbs s = foldl (\<lambda>t cb. run_callback_old cb t) s cbs"

text \<open>
  \<^verbatim>\<open>termEvaluateCommand\<close> (src/js/drawxterm.js, lines 300-343). The file commands
  return nothing here, so what the collaborators report beyond their calls is unused.
\<close>

definition termEvaluateCommand_old ::
    "'i host \<Rightarrow> string \<Rightarrow> 'i DrawTerm \<Rightarrow> string option \<times> 'i DrawTerm" where
  "termEvaluateCommand_old hst theCmd s =
     (if theCmd = [] then (None, s)
      else
        let s1 = s\<lparr>myTermHistoryPos := -1\<rparr>;
            s2 = s1\<lparr>myTermHistory := myTermHistory s1 @ [theCmd]\<rparr>;
            download = (\<lambda>args.
               case commandJsdownload hst (interp s2) args of
                 (i, cbs, aRes) \<Rightarrow> (None, run_callbacks_old cbs (s2\<lparr>interp := i\<rparr>)));
            upload = (\<lambda>args.
               case commandJsupload hst (interp s2) args of
                 (i, cbs, r) \<Rightarrow> (None, run_callbacks_old cbs (s2\<lparr>interp := i\<rparr>)))
        in if startsWith theCmd ''jsdownload '' then download (trim (substring_from theCmd 11))
           else if startsWith theCmd ''jsdown '' then download (trim (substring_from theCmd 7))
           else if startsWith theCmd ''download '' then download (trim (substring_from theCmd 9))
           else if startsWith theCmd ''jsupload '' then upload (trim (substring_from theCmd 9))
           else if startsWith theCmd ''upload '' then upload (trim (substring_from theCmd 7))
           else
             (case eval hst (interp s2) theCmd of
                (i, cbs, thrown) \<Rightarrow>
                  (let s3 = run_callbacks_old cbs (s2\<lparr>interp := i\<rparr>)
                   in case thrown of
                        None \<Rightarrow> (None, s3)
                      | Some theErr \<Rightarrow>
                          (Some theErr,
                           terminalPrintInputLine
                             (terminalWriteError_old (''Internal error: '' @ theErr) s3)))))"

text \<open>\<^verbatim>\<open>_termPopCommandFromQueue\<close> (src/js/drawxterm.js, lines 591-622).\<close>

definition termPopCommandFromQueue_old ::
    "'i host \<Rightarrow> 'i DrawTerm \<Rightarrow> string option \<times> 'i DrawTerm" where
  "termPopCommandFromQueue_old hst s =
     (case pop (commands s, myCmdQueue s) of
        (r, h, q) \<Rightarrow>
          (let s1 = s\<lparr>commands := h, myCmdQueue := q\<rparr>
           in case r of
                None \<Rightarrow> (None, s1)
              | Some aCmd \<Rightarrow>
                  (let s2 = pop_echo aCmd s1
                   in case termEvaluateCommand_old hst (command (commands s2 ! aCmd)) s2 of
                        (Some theErr, s3) \<Rightarrow>
                          (Some theErr,
                           if \<not> isEmpty (myCmdQueue s3) then setTimeout_pop s3 else s3)
                      | (None, s3) \<Rightarrow>
                          (let s4 = terminalPrintInputLine s3
                           in (None, if \<not> isEmpty (myCmdQueue s4) then setTimeout_pop s4 else s4)))))"

text \<open>\<^verbatim>\<open>_onTermKeyEvent\<close> (src/js/drawxterm.js, lines 463-518).\<close>

definition onTermKeyEvent_old :: "KeyboardEvent \<Rightarrow> 'i DrawTerm \<Rightarrow> bool \<times> 'i DrawTerm" where
  "onTermKeyEvent_old theEvent s =
     (if keyCode theEvent = 38 \<or> keyCode theEvent = 40 then
        (let aDir = (if keyCode theEvent = 38 then -1 else 1)
         in if type theEvent \<noteq> ''keydown'' then (False, s)
            else (False, history_step aDir s))
      else if keyCode theEvent = 37 \<or> keyCode theEvent = 39 \<or> keyCode theEvent = 46 then (False, s)
      else if keyCode theEvent = 33 \<or> keyCode theEvent = 34 \<or> keyCode theEvent = 35
              \<or> keyCode theEvent = 36 then (False, s)
      else (True, s))"

text \<open>\<^verbatim>\<open>_onTermDataInput\<close> (src/js/drawxterm.js, lines 524-569).\<close>

definition data_char_old :: "'i host \<Rightarrow> char \<Rightarrow> 'i DrawTerm \<times> nat \<Rightarrow> 'i DrawTerm \<times> nat" where
  "data_char_old hst aChar sn =
     (case sn of (s, aNbNewLines) \<Rightarrow>
        if aChar = CHR 0x7F then
          (if length (myTermLine s) > 0
           then (let s1 = (if aNbNewLines = 0 then terminalWrite erase_seq s else s)
                 in (s1\<lparr>myTermLine := substring (myTermLine s1) 0 (length (myTermLine s1) - 1)\<rparr>,
                     aNbNewLines))
           else (s, aNbNewLines))
        else if aChar = CHR 0x0D then
          (let aCmd = myTermLine s
           in if isComplete hst aCmd then
                (termQueueCommand aCmd (aNbNewLines \<noteq> 0) (s\<lparr>myTermLine := []\<rparr>), aNbNewLines + 1)
              else
                (let s1 = s\<lparr>myTermLine := myTermLine s @ LFCR\<rparr>
                 in (if aNbNewLines = 0 then terminalWrite (LFCR @ ''> '') s1 else s1, aNbNewLines)))
        else
          (let s1 = (if aNbNewLines = 0 then terminalWrite [aChar] s else s)
           in (s1\<lparr>myTermLine := myTermLine s1 @ [aChar]\<rparr>, aNbNewLines)))"

definition onTermDataInput_old :: "'i host \<Rightarrow> string \<Rightarrow> 'i DrawTerm \<Rightarrow> 'i DrawTerm" where
  "onTermDataInput_old hst theEvent s =
     fst (foldl (\<lambda>sn aChar. data_char_old hst aChar sn) (s, 0) theEvent)"

subsection \<open>Well-formed states\<close>

definition wf_queue :: "'i DrawTerm \<Rightarrow> bool" where
  "wf_queue s = queue_inv (commands s) (myCmdQueue s) (live_nodes (commands s) (myCmdQueue s))"

definition term_queued :: "'i DrawTerm \<Rightarrow> (string \<times> bool) list" where
  "term_queued s = queued (commands s, myCmdQueue s)"

text \<open>
  The queue of a terminal is well formed when its fields describe the list of nodes
  reached from \<^verbatim>\<open>_myFirst\<close>; \<open>term_queued\<close> reads the queued commands off that list.
  Every state reached from a newly constructed terminal is well formed (lemmas
  \<open>wf_queue_new\<close> to \<open>onTermKeyEvent_wf\<close> below).
\<close>

subsection \<open>Auxiliary notions for the statements\<close>

text \<open>
  \<open>same_editor s t\<close>: \<open>t\<close> differs from \<open>s\<close> at most in what was written to the
  terminal and in the prompt counter. \<open>same_queue s t\<close>: \<open>t\<close> has the queue, the heap,
  the timers, the in-progress line and the constants of \<open>s\<close>.
\<close>

definition same_editor :: "'i DrawTerm \<Rightarrow> 'i DrawTerm \<Rightarrow> bool" where
  "same_editor s t =
     (myTermHello t = myTermHello s \<and> myTermLine t = myTermLine s \<and>
      myTermHistory t = myTermHistory s \<and> myTermHistoryPos t = myTermHistoryPos s \<and>
      myCmdTimeout t = myCmdTimeout s \<and> myCmdQueue t = myCmdQueue s \<and>
      commands t = commands s \<and> timers t = timers s \<and> interp t = interp s \<and>
      (myTerm t = None) = (myTerm s = None))"

definition same_queue :: "'i DrawTerm \<Rightarrow> 'i DrawTerm \<Rightarrow> bool" where
  "same_queue s t =
     (myTermHello t = myTermHello s \<and> myTermLine t = myTermLine s \<and>
      myCmdTimeout t = myCmdTimeout s \<and> myCmdQueue t = myCmdQueue s \<and>
      commands t = commands s \<and> timers t = timers s \<and>
      (myTerm t = None) = (myTerm s = None))"

text \<open>
  The state in which \<^verbatim>\<open>_termPopCommandFromQueue\<close> calls \<^verbatim>\<open>termEvaluateCommand\<close>:
  after \<^verbatim>\<open>pop()\<close> and after the echo of the command, if it is marked for echo.
\<close>

definition before_evaluation :: "'i DrawTerm \<Rightarrow> 'i DrawTerm" where
  "before_evaluation s =
     (case pop (commands s, myCmdQueue s) of
        (r, h, q) \<Rightarrow>
          (let s1 = s\<lparr>commands := h, myCmdQueue := q\<rparr>
           in case r of None \<Rightarrow> s1 | Some aCmd \<Rightarrow> pop_echo aCmd s1))"

subsection \<open>Concrete inputs\<close>

text \<open>
  A host whose interpreter has no state, accepts every line as complete, prints the
  command it is given and throws on the command \<^verbatim>\<open>bad\<close>, and which does not define
  \<^verbatim>\<open>InternalError\<close>; the same host with \<^verbatim>\<open>InternalError\<close> defined; the state of a terminal
  after \<^verbatim>\<open>bad\<close> and \<^verbatim>\<open>echo\<close> were entered, at the moment the drain timer has fired;
  the two arrow keys; a terminal whose history is \<^verbatim>\<open>a\<close>, \<^verbatim>\<open>b\<close>.
\<close>

definition example_host :: "unit host" where
  "example_host =
     \<lparr>isComplete = (\<lambda>t. True),
      eval = (\<lambda>i c. (i, [Print c], if c = ''bad'' then Some ''boom'' else None)),
      commandJsdownload = (\<lambda>i a. (i, [], False)),
      commandJsupload = (\<lambda>i a. (i, [], UploadPending)),
      internalErrorDefined = False\<rparr>"

definition firefox_host :: "unit host" where
  "firefox_host = example_host\<lparr>internalErrorDefined := True\<rparr>"

definition two_queued :: "unit DrawTerm" where
  "two_queued =
     (onTermDataInput example_host (''bad'' @ [CHR 0x0D] @ ''echo'' @ [CHR 0x0D]) (DrawTerm_new ()))
       \<lparr>timers := []\<rparr>"

definition ArrowUp_keydown :: KeyboardEvent where
  "ArrowUp_keydown = \<lparr>keyCode = 38, type = ''keydown'', key = ''ArrowUp'', ctrlKey = False\<rparr>"

definition ArrowDown_keydown :: KeyboardEvent where
  "ArrowDown_keydown = \<lparr>keyCode = 40, type = ''keydown'', key = ''ArrowDown'', ctrlKey = False\<rparr>"

definition history_ab :: "unit DrawTerm" where
  "history_ab = (DrawTerm_new ())\<lparr>myTermHistory := [''a'', ''b'']\<rparr>"

section \<open>Properties of the queue\<close>

subsection \<open>The invariant and its preservation\<close>


lemma qpath_bound: "qpath h p as \<Longrightarrow> a \<in> set as \<Longrightarrow> a < length h"
  by (induction as arbitrary: p) auto

lemma qpath_update_other:
  "a \<notin> set as \<Longrightarrow> qpath (h[a := v]) p as = qpath h p as"
  by (induction as arbitrary: p) auto

lemma qpath_grow: "qpath h p as \<Longrightarrow> qpath (h @ [c]) p as"
  by (induction as arbitrary: p) (auto simp: nth_append)

lemma qpath_link_last:
  "qpath h p as \<Longrightarrow> distinct as \<Longrightarrow> as \<noteq> [] \<Longrightarrow> n \<notin> set as \<Longrightarrow> n < length h \<Longrightarrow>
   myNext (h ! n) = None \<Longrightarrow>
   qpath (h[last as := (h ! last as)\<lparr>myNext := Some n\<rparr>]) p (as @ [n])"
proof (induction as arbitrary: p)
  case Nil
  then show ?case by simp
next
  case (Cons a as)
  show ?case
  proof (cases "as = []")
    case True
    with Cons.prems show ?thesis by auto
  next
    case False
    from Cons.prems have step: "qpath h (myNext (h ! a)) as" and d: "distinct as"
      and nin: "n \<notin> set as" and ne: "a \<noteq> last as"
      using False by auto
    have "qpath (h[last as := (h ! last as)\<lparr>myNext := Some n\<rparr>]) (myNext (h ! a)) (as @ [n])"
      using Cons.IH[OF step d False nin] Cons.prems by simp
    with Cons.prems False ne show ?thesis by simp
  qed
qed

lemma contents_update_next:
  "contents (h[a := (h ! a)\<lparr>myNext := x\<rparr>]) as = contents h as"
  by (cases "a < length h") (auto simp: contents_def nth_list_update list_update_beyond)

lemma contents_grow:
  "\<forall>a \<in> set as. a < length h \<Longrightarrow> contents (h @ [c]) as = contents h as"
  by (auto simp: contents_def nth_append)

lemma add_inv:
  assumes inv: "queue_inv h q as"
  shows "queue_inv (fst (add (length h) (h @ [\<lparr>command = c, toEcho = e, myNext = None\<rparr>], q)))
                   (snd (add (length h) (h @ [\<lparr>command = c, toEcho = e, myNext = None\<rparr>], q)))
                   (as @ [length h])"
    and "contents (fst (add (length h) (h @ [\<lparr>command = c, toEcho = e, myNext = None\<rparr>], q)))
                   (as @ [length h]) = contents h as @ [(c, e)]"
proof -
  let ?cell = "\<lparr>command = c, toEcho = e, myNext = None\<rparr>"
  let ?h1 = "h @ [?cell]"
  from inv have p: "qpath h (myFirst q) as" and d: "distinct as"
    and len: "myLength q = int (length as)"
    and lst: "myLast q = (if as = [] then None else Some (last as))"
    by (simp_all add: queue_inv_def)
  have bnd: "\<forall>a \<in> set as. a < length h" using qpath_bound[OF p] by blast
  then have fresh: "length h \<notin> set as" by auto
  have p1: "qpath ?h1 (myFirst q) as" by (rule qpath_grow[OF p])
  show "queue_inv (fst (add (length h) (?h1, q))) (snd (add (length h) (?h1, q))) (as @ [length h])"
  proof (cases "as = []")
    case True
    with lst len show ?thesis by (simp add: add_def queue_inv_def)
  next
    case False
    have "qpath (?h1[last as := (?h1 ! last as)\<lparr>myNext := Some (length h)\<rparr>]) (myFirst q) (as @ [length h])"
      by (rule qpath_link_last[OF p1 d False fresh]) simp_all
    with False lst len d fresh show ?thesis by (simp add: add_def queue_inv_def)
  qed
  show "contents (fst (add (length h) (?h1, q))) (as @ [length h]) = contents h as @ [(c, e)]"
  proof (cases "as = []")
    case True
    with lst show ?thesis by (simp add: add_def contents_def)
  next
    case False
    have l: "last as < length h" using bnd False by simp
    have "contents (?h1[last as := (?h1 ! last as)\<lparr>myNext := Some (length h)\<rparr>]) (as @ [length h])
          = contents ?h1 (as @ [length h])" by (rule contents_update_next)
    also have "\<dots> = contents ?h1 as @ [(c, e)]" by (simp add: contents_def)
    also have "contents ?h1 as = contents h as" using bnd by (rule contents_grow)
    finally show ?thesis using False lst by (simp add: add_def)
  qed
qed

lemma pop_empty: "queue_inv h q [] \<Longrightarrow> pop (h, q) = (None, h, q)"
  by (simp add: queue_inv_def pop_def)

lemma pop_inv:
  assumes inv: "queue_inv h q (a # as)"
  shows "fst (pop (h, q)) = Some a"
    and "queue_inv (fst (snd (pop (h, q)))) (snd (snd (pop (h, q)))) as"
    and "contents (fst (snd (pop (h, q)))) (a # as) = contents h (a # as)"
proof -
  from inv have f: "myFirst q = Some a" and al: "a < length h"
    and p: "qpath h (myNext (h ! a)) as" and d: "distinct as" and nin: "a \<notin> set as"
    and len: "myLength q = int (length as) + 1"
    and lst: "myLast q = Some (last (a # as))"
    by (simp_all add: queue_inv_def)
  let ?h' = "h[a := (h ! a)\<lparr>myNext := None\<rparr>]"
  have p': "qpath ?h' (myNext (h ! a)) as" using p nin by (simp add: qpath_update_other)
  show "fst (pop (h, q)) = Some a" using f by (simp add: pop_def Let_def)
  show "queue_inv (fst (snd (pop (h, q)))) (snd (snd (pop (h, q)))) as"
    using f p' d len lst by (auto simp: pop_def Let_def queue_inv_def)
  show "contents (fst (snd (pop (h, q)))) (a # as) = contents h (a # as)"
    using f by (simp add: pop_def Let_def contents_update_next)
qed


lemma nodes_from_qpath:
  "qpath h p as \<Longrightarrow> length as \<le> n \<Longrightarrow> nodes_from h n p = as"
proof (induction as arbitrary: p n)
  case Nil
  then show ?case by (cases n) simp_all
next
  case (Cons a as)
  then show ?case by (cases n) simp_all
qed

lemma distinct_bounded_length:
  assumes "distinct as" and "\<forall>a \<in> set as. a < (m::nat)"
  shows "length as \<le> m"
proof -
  have "set as \<subseteq> {..<m}" using assms(2) by auto
  then have "card (set as) \<le> card {..<m}" by (intro card_mono) simp_all
  with assms(1) show ?thesis by (simp add: distinct_card)
qed

lemma live_nodes_inv: "queue_inv h q as \<Longrightarrow> live_nodes h q = as"
proof -
  assume inv: "queue_inv h q as"
  then have p: "qpath h (myFirst q) as" and d: "distinct as" by (simp_all add: queue_inv_def)
  have "length as \<le> length h"
    using d qpath_bound[OF p] by (intro distinct_bounded_length) auto
  with p show ?thesis unfolding live_nodes_def by (rule nodes_from_qpath)
qed

lemma queue_inv_new: "queue_inv h DrawCommandQueue_new []"
  by (simp add: queue_inv_def DrawCommandQueue_new_def)

lemma run_ops_inv:
  "queue_inv h q as \<Longrightarrow> run_ops ops (h, q) = (outs, h', q') \<Longrightarrow>
   \<exists>as'. queue_inv h' q' as' \<and> outs @ contents h' as' = contents h as @ added ops"
proof (induction ops arbitrary: h q as outs)
  case Nil
  then show ?case by auto
next
  case (Cons x ops)
  show ?case
  proof (cases x)
    case (Add c e)
    let ?h1 = "h @ [\<lparr>command = c, toEcho = e, myNext = None\<rparr>]"
    obtain h2 q2 where a: "add (length h) (?h1, q) = (h2, q2)" by (cases "add (length h) (?h1, q)")
    from add_inv[OF Cons.prems(1), of c e] a
    have inv2: "queue_inv h2 q2 (as @ [length h])"
      and c2: "contents h2 (as @ [length h]) = contents h as @ [(c, e)]" by simp_all
    from Cons.prems(2) Add a have "run_ops ops (h2, q2) = (outs, h', q')"
      by (simp add: DrawCommand_new_def)
    from Cons.IH[OF inv2 this] c2 Add show ?thesis by auto
  next
    case Pop
    show ?thesis
    proof (cases as)
      case Nil
      with Cons.prems(1) have "pop (h, q) = (None, h, q)" by (simp add: pop_empty)
      with Cons.prems(2) Pop have "run_ops ops (h, q) = (outs, h', q')" by simp
      from Cons.IH[OF Cons.prems(1) this] Pop show ?thesis by simp
    next
      case (Cons a as1)
      obtain r h1 q1 where p: "pop (h, q) = (r, h1, q1)" by (cases "pop (h, q)")
      from pop_inv[of h q a as1] Cons.prems(1) Cons p
      have r: "r = Some a" and inv1: "queue_inv h1 q1 as1"
        and c1: "contents h1 (a # as1) = contents h (a # as1)" by simp_all
      obtain outs1 where o1: "run_ops ops (h1, q1) = (outs1, h', q')"
        and o: "outs = (command (h1 ! a), toEcho (h1 ! a)) # outs1"
        using Cons.prems(2) Pop p r by (auto split: prod.splits)
      from Cons.IH[OF inv1 o1] obtain as' where
        "queue_inv h' q' as'" "outs1 @ contents h' as' = contents h1 as1 @ added ops" by blast
      with o c1 Cons Pop show ?thesis by (auto simp: contents_def)
    qed
  qed
qed

lemma run_ops_new:
  assumes "run_ops ops (h0, DrawCommandQueue_new) = (outs, h, q)"
  shows "queue_inv h q (live_nodes h q)"
    and "outs @ queued (h, q) = added ops"
proof -
  from run_ops_inv[OF queue_inv_new assms] obtain as where
    inv: "queue_inv h q as" and c: "outs @ contents h as = added ops"
    by (auto simp: contents_def)
  from live_nodes_inv[OF inv] inv c
  show "queue_inv h q (live_nodes h q)" and "outs @ queued (h, q) = added ops"
    by (simp_all add: queued_def)
qed

subsection \<open>The list model of the specification\<close>

lemma contents_Cons:
  "contents h (a # as) = (command (h ! a), toEcho (h ! a)) # contents h as"
  by (simp add: contents_def)

lemma run_ops_refines:
  "queue_inv h q as \<Longrightarrow> run_ops ops (h, q) = (outs, h', q') \<Longrightarrow>
   \<exists>as'. queue_inv h' q' as' \<and> (outs, contents h' as') = spec_queue ops (contents h as)"
proof (induction ops arbitrary: h q as outs)
  case Nil
  then show ?case by auto
next
  case (Cons x ops)
  show ?case
  proof (cases x)
    case (Add c e)
    let ?h1 = "h @ [\<lparr>command = c, toEcho = e, myNext = None\<rparr>]"
    obtain h2 q2 where a: "add (length h) (?h1, q) = (h2, q2)" by (cases "add (length h) (?h1, q)")
    from add_inv[OF Cons.prems(1), of c e] a
    have inv2: "queue_inv h2 q2 (as @ [length h])"
      and c2: "contents h2 (as @ [length h]) = contents h as @ [(c, e)]" by simp_all
    from Cons.prems(2) Add a have "run_ops ops (h2, q2) = (outs, h', q')"
      by (simp add: DrawCommand_new_def)
    from Cons.IH[OF inv2 this] c2 Add show ?thesis by auto
  next
    case Pop
    show ?thesis
    proof (cases as)
      case Nil
      with Cons.prems(1) have "pop (h, q) = (None, h, q)" by (simp add: pop_empty)
      with Cons.prems(2) Pop have "run_ops ops (h, q) = (outs, h', q')" by simp
      from Cons.IH[OF Cons.prems(1) this] Pop Nil show ?thesis by (simp add: contents_def)
    next
      case (Cons a as1)
      obtain r h1 q1 where p: "pop (h, q) = (r, h1, q1)" by (cases "pop (h, q)")
      from pop_inv[of h q a as1] Cons.prems(1) Cons p
      have r: "r = Some a" and inv1: "queue_inv h1 q1 as1"
        and c1: "contents h1 (a # as1) = contents h (a # as1)" by simp_all
      obtain outs1 where o1: "run_ops ops (h1, q1) = (outs1, h', q')"
        and o: "outs = (command (h1 ! a), toEcho (h1 ! a)) # outs1"
        using Cons.prems(2) Pop p r by (auto split: prod.splits)
      from Cons.IH[OF inv1 o1] obtain as' where
        i': "queue_inv h' q' as'" and s': "(outs1, contents h' as') = spec_queue ops (contents h1 as1)"
        by blast
      from c1 have hd: "(command (h1 ! a), toEcho (h1 ! a)) = (command (h ! a), toEcho (h ! a))"
        and tl: "contents h1 as1 = contents h as1" by (simp_all add: contents_Cons)
      have "spec_queue (Pop # ops) (contents h (a # as1)) =
            (case spec_queue ops (contents h as1) of (outs, r) \<Rightarrow> ((command (h ! a), toEcho (h ! a)) # outs, r))"
        by (simp add: contents_Cons)
      also have "\<dots> = (outs, contents h' as')"
        using s'[symmetric] o hd tl by simp
      finally show ?thesis using i' Cons Pop by auto
    qed
  qed
qed

lemma spec_queue_adds: "spec_queue (adds xs @ ops) pending = spec_queue ops (pending @ xs)"
  by (induction xs arbitrary: pending) (simp_all add: adds_def)

lemma spec_queue_pops: "spec_queue (replicate (length pending) Pop) pending = (pending, [])"
  by (induction pending) simp_all

lemma pop_head:
  assumes inv: "queue_inv h q (live_nodes h q)" and qd: "queued (h, q) = x # rest"
  shows "\<exists>a h' q'. pop (h, q) = (Some a, h', q') \<and> (command (h' ! a), toEcho (h' ! a)) = x \<and>
           queue_inv h' q' (live_nodes h' q') \<and> queued (h', q') = rest"
proof -
  from qd obtain a as where as: "live_nodes h q = a # as"
    by (cases "live_nodes h q") (auto simp: queued_def contents_def)
  with inv have inv': "queue_inv h q (a # as)" by simp
  obtain r h1 q1 where p: "pop (h, q) = (r, h1, q1)" by (cases "pop (h, q)")
  from pop_inv[OF inv'] p have r: "r = Some a" and inv1: "queue_inv h1 q1 as"
    and c: "contents h1 (a # as) = contents h (a # as)" by simp_all
  from c qd as have "(command (h1 ! a), toEcho (h1 ! a)) = x" "contents h1 as = rest"
    by (simp_all add: queued_def contents_Cons)
  with p r inv1 live_nodes_inv[OF inv1] show ?thesis by (auto simp: queued_def)
qed

subsection \<open>First in, first out\<close>

text \<open>
  C1. Run any sequence of \<open>Add\<close> and \<open>Pop\<close> operations on a newly constructed queue.
  The commands the pops return, and the commands left in the queue, are those of the
  specification's ordered sequence, where a dequeue takes the oldest command and an
  empty sequence gives nothing. So the commands returned, followed by the commands
  still queued, are the commands added, in the order they were added, and the
  commands returned are all the commands added once the queue is empty again. A pop
  on a queue that holds at least one command returns the oldest one and leaves the
  rest. Adding any commands \<open>xs\<close> and then popping as many times returns exactly \<open>xs\<close>.
\<close>

theorem queue_fifo:
  "run_ops ops (h0, DrawCommandQueue_new) = (outs, h, q) \<Longrightarrow>
     (outs, queued (h, q)) = spec_queue ops [] \<and>
     outs @ queued (h, q) = added ops \<and>
     (isEmpty q \<longrightarrow> outs = added ops) \<and>
     (queued (h, q) = x # rest \<longrightarrow>
        (case pop (h, q) of
           (r, h', q') \<Rightarrow>
             map_option (\<lambda>a. (command (h' ! a), toEcho (h' ! a))) r = Some x \<and>
             queued (h', q') = rest)) \<and>
     fst (run_ops (adds xs @ replicate (length xs) Pop) (h0, DrawCommandQueue_new)) = xs"
proof -
  assume r: "run_ops ops (h0, DrawCommandQueue_new) = (outs, h, q)"
  from run_ops_new[OF r] have inv: "queue_inv h q (live_nodes h q)"
    and c: "outs @ queued (h, q) = added ops" by simp_all
  from run_ops_refines[OF queue_inv_new r] obtain as where
    i: "queue_inv h q as" and s: "(outs, contents h as) = spec_queue ops []"
    by (auto simp: contents_def)
  from live_nodes_inv[OF i] s have refines: "(outs, queued (h, q)) = spec_queue ops []"
    by (simp add: queued_def)
  from inv have "isEmpty q \<Longrightarrow> live_nodes h q = []" by (simp add: queue_inv_def isEmpty_def)
  then have "isEmpty q \<Longrightarrow> queued (h, q) = []" by (simp add: queued_def contents_def)
  with c have drained: "isEmpty q \<longrightarrow> outs = added ops" by auto
  have step: "queued (h, q) = x # rest \<longrightarrow>
        (case pop (h, q) of
           (r, h', q') \<Rightarrow>
             map_option (\<lambda>a. (command (h' ! a), toEcho (h' ! a))) r = Some x \<and>
             queued (h', q') = rest)"
  proof
    assume "queued (h, q) = x # rest"
    from pop_head[OF inv this] show "case pop (h, q) of
           (r, h', q') \<Rightarrow>
             map_option (\<lambda>a. (command (h' ! a), toEcho (h' ! a))) r = Some x \<and>
             queued (h', q') = rest" by auto
  qed
  obtain outs2 h2 q2 where r2:
    "run_ops (adds xs @ replicate (length xs) Pop) (h0, DrawCommandQueue_new) = (outs2, h2, q2)"
    by (cases "run_ops (adds xs @ replicate (length xs) Pop) (h0, DrawCommandQueue_new)")
  from run_ops_refines[OF queue_inv_new r2] obtain as2 where
    "(outs2, contents h2 as2) = spec_queue (adds xs @ replicate (length xs) Pop) []"
    by (auto simp: contents_def)
  then have "outs2 = xs" using spec_queue_pops[of xs] by (simp add: spec_queue_adds)
  with r2 have all: "fst (run_ops (adds xs @ replicate (length xs) Pop) (h0, DrawCommandQueue_new)) = xs"
    by simp
  from refines c drained step all show ?thesis by blast
qed

lemma run_ops_example:
  "run_ops [Add ''a'' False, Pop, Add ''b'' True, Add ''c'' True, Pop, Pop, Pop]
       ([], DrawCommandQueue_new) =
     ([(''a'', False), (''b'', True), (''c'', True)],
      [\<lparr>command = ''a'', toEcho = False, myNext = None\<rparr>,
       \<lparr>command = ''b'', toEcho = True, myNext = None\<rparr>,
       \<lparr>command = ''c'', toEcho = True, myNext = None\<rparr>],
      \<lparr>myFirst = None, myLast = None, myLength = 0\<rparr>)"
  by (simp add: DrawCommand_new_def DrawCommandQueue_new_def add_def pop_def Let_def)

lemma run_ops_example2:
  "run_ops [Add ''a'' False, Add ''b'' True, Pop, Add ''c'' True] ([], DrawCommandQueue_new) =
     ([(''a'', False)],
      [\<lparr>command = ''a'', toEcho = False, myNext = None\<rparr>,
       \<lparr>command = ''b'', toEcho = True, myNext = Some 2\<rparr>,
       \<lparr>command = ''c'', toEcho = True, myNext = None\<rparr>],
      \<lparr>myFirst = Some 1, myLast = Some 2, myLength = 2\<rparr>)"
  by (simp add: DrawCommand_new_def DrawCommandQueue_new_def add_def pop_def Let_def)

lemma queued_example2:
  "queued ([\<lparr>command = ''a'', toEcho = False, myNext = None\<rparr>,
            \<lparr>command = ''b'', toEcho = True, myNext = Some 2\<rparr>,
            \<lparr>command = ''c'', toEcho = True, myNext = None\<rparr>],
           \<lparr>myFirst = Some 1, myLast = Some 2, myLength = 2\<rparr>) =
     (''b'', True) # [(''c'', True)]"
  by code_simp

lemma queued_example:
  "queued ([\<lparr>command = ''a'', toEcho = False, myNext = None\<rparr>,
            \<lparr>command = ''b'', toEcho = True, myNext = None\<rparr>,
            \<lparr>command = ''c'', toEcho = True, myNext = None\<rparr>],
           \<lparr>myFirst = None, myLast = None, myLength = 0\<rparr>) = []"
  by code_simp

theorem queue_fifo_witness:
  "run_ops [Add ''a'' False, Pop, Add ''b'' True, Add ''c'' True, Pop, Pop, Pop]
       ([], DrawCommandQueue_new) =
     ([(''a'', False), (''b'', True), (''c'', True)],
      [\<lparr>command = ''a'', toEcho = False, myNext = None\<rparr>,
       \<lparr>command = ''b'', toEcho = True, myNext = None\<rparr>,
       \<lparr>command = ''c'', toEcho = True, myNext = None\<rparr>],
      \<lparr>myFirst = None, myLast = None, myLength = 0\<rparr>)
   \<and> isEmpty \<lparr>myFirst = None, myLast = None, myLength = 0\<rparr>
   \<and> [(''a'', False), (''b'', True), (''c'', True)] =
       added [Add ''a'' False, Pop, Add ''b'' True, Add ''c'' True, Pop, Pop, Pop]
   \<and> ([(''a'', False), (''b'', True), (''c'', True)], []) =
       spec_queue [Add ''a'' False, Pop, Add ''b'' True, Add ''c'' True, Pop, Pop, Pop] []
   \<and> run_ops [Add ''a'' False, Add ''b'' True, Pop, Add ''c'' True] ([], DrawCommandQueue_new) =
     ([(''a'', False)],
      [\<lparr>command = ''a'', toEcho = False, myNext = None\<rparr>,
       \<lparr>command = ''b'', toEcho = True, myNext = Some 2\<rparr>,
       \<lparr>command = ''c'', toEcho = True, myNext = None\<rparr>],
      \<lparr>myFirst = Some 1, myLast = Some 2, myLength = 2\<rparr>)
   \<and> queued ([\<lparr>command = ''a'', toEcho = False, myNext = None\<rparr>,
            \<lparr>command = ''b'', toEcho = True, myNext = Some 2\<rparr>,
            \<lparr>command = ''c'', toEcho = True, myNext = None\<rparr>],
           \<lparr>myFirst = Some 1, myLast = Some 2, myLength = 2\<rparr>) =
       (''b'', True) # [(''c'', True)]
   \<and> (case pop ([\<lparr>command = ''a'', toEcho = False, myNext = None\<rparr>,
            \<lparr>command = ''b'', toEcho = True, myNext = Some 2\<rparr>,
            \<lparr>command = ''c'', toEcho = True, myNext = None\<rparr>],
           \<lparr>myFirst = Some 1, myLast = Some 2, myLength = 2\<rparr>) of
         (r, h', q') \<Rightarrow>
           map_option (\<lambda>a. (command (h' ! a), toEcho (h' ! a))) r = Some (''b'', True) \<and>
           queued (h', q') = [(''c'', True)])
   \<and> fst (run_ops (adds [(''a'', False), (''b'', True)] @
                   replicate (length [(''a'', False), (''b'', True)]) Pop)
         ([], DrawCommandQueue_new)) = [(''a'', False), (''b'', True)]"
proof -
  have e: "isEmpty \<lparr>myFirst = None, myLast = None, myLength = 0\<rparr>" by (simp add: isEmpty_def)
  note a = queue_fifo[OF run_ops_example, of "(''a'', False)" "[]" "[(''a'', False), (''b'', True)]"]
  note b = queue_fifo[OF run_ops_example2, of "(''b'', True)" "[(''c'', True)]" "[]"]
  note a1 = a[THEN conjunct2, THEN conjunct2, THEN conjunct1, THEN mp, OF e]
  note a2 = a[THEN conjunct1, unfolded queued_example]
  note a3 = a[THEN conjunct2, THEN conjunct2, THEN conjunct2, THEN conjunct2]
  note b1 = b[THEN conjunct2, THEN conjunct2, THEN conjunct2, THEN conjunct1, THEN mp,
              OF queued_example2]
  from run_ops_example e a1 a2 run_ops_example2 queued_example2 b1 a3 show ?thesis
    by (intro conjI)
qed

text \<open>
  C8. After any sequence of operations on a newly constructed queue, the nodes
  reached from \<^verbatim>\<open>_myFirst\<close> along \<^verbatim>\<open>_myNext\<close> form a list that ends in \<^verbatim>\<open>null\<close>,
  \<^verbatim>\<open>_myLength\<close> is the number of its nodes, and \<^verbatim>\<open>isEmpty()\<close> holds exactly when as
  many pops have returned a command as commands were added.
\<close>

theorem queue_length_counts_live_nodes:
  "run_ops ops (h0, DrawCommandQueue_new) = (outs, h, q) \<Longrightarrow>
     qpath h (myFirst q) (live_nodes h q) \<and>
     myLength q = int (length (live_nodes h q)) \<and>
     (isEmpty q \<longleftrightarrow> length outs = length (added ops))"
proof -
  assume r: "run_ops ops (h0, DrawCommandQueue_new) = (outs, h, q)"
  from run_ops_new[OF r] have inv: "queue_inv h q (live_nodes h q)"
    and c: "outs @ queued (h, q) = added ops" by simp_all
  have "length (outs @ queued (h, q)) = length outs + length (live_nodes h q)"
    by (simp add: queued_def contents_def)
  with c have "length outs + length (live_nodes h q) = length (added ops)"
    by simp
  with inv show ?thesis by (auto simp: queue_inv_def isEmpty_def)
qed

theorem queue_length_counts_live_nodes_witness:
  "run_ops [Add ''a'' False, Add ''b'' True, Pop, Add ''c'' True] ([], DrawCommandQueue_new) =
     ([(''a'', False)],
      [\<lparr>command = ''a'', toEcho = False, myNext = None\<rparr>,
       \<lparr>command = ''b'', toEcho = True, myNext = Some 2\<rparr>,
       \<lparr>command = ''c'', toEcho = True, myNext = None\<rparr>],
      \<lparr>myFirst = Some 1, myLast = Some 2, myLength = 2\<rparr>)
   \<and> live_nodes [\<lparr>command = ''a'', toEcho = False, myNext = None\<rparr>,
       \<lparr>command = ''b'', toEcho = True, myNext = Some 2\<rparr>,
       \<lparr>command = ''c'', toEcho = True, myNext = None\<rparr>]
       \<lparr>myFirst = Some 1, myLast = Some 2, myLength = 2\<rparr> = [1, 2]
   \<and> \<not> isEmpty \<lparr>myFirst = Some 1, myLast = Some 2, myLength = 2\<rparr>"
proof -
  have "live_nodes [\<lparr>command = ''a'', toEcho = False, myNext = None\<rparr>,
       \<lparr>command = ''b'', toEcho = True, myNext = Some 2\<rparr>,
       \<lparr>command = ''c'', toEcho = True, myNext = None\<rparr>]
       \<lparr>myFirst = Some 1, myLast = Some 2, myLength = 2\<rparr> = [1, 2]"
    by (simp add: live_nodes_def numeral_3_eq_3)
  with queue_length_counts_live_nodes[OF run_ops_example2] run_ops_example2
  show ?thesis by simp
qed

text \<open>
  C7. On a queue that \<^verbatim>\<open>isEmpty()\<close> reports empty, reached by any sequence of
  operations from a newly constructed one, \<^verbatim>\<open>pop()\<close> returns \<^verbatim>\<open>null\<close> and changes
  neither the queue's fields nor the heap; no path of \<^verbatim>\<open>pop\<close> throws.
\<close>

theorem pop_on_empty_queue:
  "run_ops ops (h0, DrawCommandQueue_new) = (outs, h, q) \<Longrightarrow> isEmpty q \<Longrightarrow>
     pop (h, q) = (None, h, q)"
proof -
  assume r: "run_ops ops (h0, DrawCommandQueue_new) = (outs, h, q)" and e: "isEmpty q"
  from run_ops_new(1)[OF r] e have "queue_inv h q []"
    by (auto simp: queue_inv_def isEmpty_def)
  then show ?thesis by (rule pop_empty)
qed

theorem pop_on_empty_queue_witness:
  "isEmpty \<lparr>myFirst = None, myLast = None, myLength = 0\<rparr> \<and>
   pop ([\<lparr>command = ''a'', toEcho = False, myNext = None\<rparr>,
         \<lparr>command = ''b'', toEcho = True, myNext = None\<rparr>,
         \<lparr>command = ''c'', toEcho = True, myNext = None\<rparr>],
        \<lparr>myFirst = None, myLast = None, myLength = 0\<rparr>) =
     (None,
      [\<lparr>command = ''a'', toEcho = False, myNext = None\<rparr>,
       \<lparr>command = ''b'', toEcho = True, myNext = None\<rparr>,
       \<lparr>command = ''c'', toEcho = True, myNext = None\<rparr>],
      \<lparr>myFirst = None, myLast = None, myLength = 0\<rparr>)"
proof -
  have e: "isEmpty \<lparr>myFirst = None, myLast = None, myLength = 0\<rparr>"
    by (simp add: isEmpty_def)
  from pop_on_empty_queue[OF run_ops_example e] e show ?thesis by simp
qed

section \<open>Properties of the terminal\<close>

subsection \<open>What the writers change\<close>

lemma terminalWrite_upd:
  "terminalWrite t s = s\<lparr>myTerm := map_option (\<lambda>out. out @ [t]) (myTerm s)\<rparr>"
  by (cases "myTerm s") (simp_all add: terminalWrite_def)

lemma terminalWriteMultiline_upd:
  "terminalWriteMultiline t s = s\<lparr>myTerm := map_option (\<lambda>out. out @ [replace_LF t]) (myTerm s)\<rparr>"
  by (cases "myTerm s") (simp_all add: terminalWriteMultiline_def)

lemma terminalPrintInputLine_upd:
  "terminalPrintInputLine s =
     s\<lparr>myTerm := map_option (\<lambda>out. out @ [LFCR, prompt (myTermHello s) (myTermInCounter s + 1)]) (myTerm s),
       myTermInCounter := myTermInCounter s + 1\<rparr>"
  by (cases "myTerm s") (simp_all add: terminalPrintInputLine_def terminalWrite_upd Let_def)

lemma same_editor_refl: "same_editor s s"
  by (simp add: same_editor_def)

lemma same_editor_trans: "same_editor s t \<Longrightarrow> same_editor t u \<Longrightarrow> same_editor s u"
  by (simp add: same_editor_def)

lemma printMessage_same: "same_editor s (printMessage t g s)"
  by (simp add: same_editor_def printMessage_def terminalWriteTrace_def terminalWriteInfo_def
      terminalWriteWarning_def terminalWriteError_def terminalWriteMultiline_upd terminalWrite_upd)

lemma run_callback_same: "same_editor s (run_callback cb s)"
  by (cases cb) (simp_all add: printMessage_same, simp_all add: same_editor_def terminalWriteLine_def
      terminalWriteError_def terminalWriteMultiline_upd terminalWrite_upd terminalPrintInputLine_upd)

lemma run_callbacks_same: "same_editor s (run_callbacks cbs s)"
proof (induction cbs arbitrary: s)
  case Nil
  show ?case by (simp add: run_callbacks_def same_editor_refl)
next
  case (Cons cb cbs)
  have "same_editor (run_callback cb s) (run_callbacks cbs (run_callback cb s))" by (rule Cons.IH)
  with run_callback_same[of s cb] show ?case
    by (simp add: run_callbacks_def same_editor_trans)
qed

lemma printMessage_old_same: "same_editor s (printMessage_old t g s)"
  by (simp add: same_editor_def printMessage_old_def terminalWriteTrace_old_def terminalWriteInfo_old_def
      terminalWriteWarning_old_def terminalWriteError_old_def terminalWrite_upd)

lemma run_callback_old_same: "same_editor s (run_callback_old cb s)"
  by (cases cb) (simp_all add: printMessage_old_same, simp_all add: same_editor_def terminalWriteLine_def
      terminalWriteError_old_def print_old_def terminalWrite_upd terminalPrintInputLine_upd)

lemma run_callbacks_old_same: "same_editor s (run_callbacks_old cbs s)"
proof (induction cbs arbitrary: s)
  case Nil
  show ?case by (simp add: run_callbacks_old_def same_editor_refl)
next
  case (Cons cb cbs)
  have "same_editor (run_callback_old cb s) (run_callbacks_old cbs (run_callback_old cb s))" by (rule Cons.IH)
  with run_callback_old_same[of s cb] show ?case
    by (simp add: run_callbacks_old_def same_editor_trans)
qed

lemma same_editor_queue: "same_editor s t \<Longrightarrow> same_queue s t"
  by (simp add: same_editor_def same_queue_def)

lemma termEvaluateCommand_same_queue:
  "same_queue s (snd (termEvaluateCommand hst c s))"
proof -
  have a: "same_queue s (run_callbacks cbs (s\<lparr>myTermHistoryPos := p, myTermHistory := hs, interp := i\<rparr>))"
    for cbs p hs i
    using run_callbacks_same[of "s\<lparr>myTermHistoryPos := p, myTermHistory := hs, interp := i\<rparr>" cbs]
    by (simp add: same_editor_def same_queue_def)
  show ?thesis
    by (simp add: termEvaluateCommand_def Let_def a split: prod.splits)
       (simp add: same_queue_def)
qed

lemma termEvaluateCommand_old_same_queue:
  "same_queue s (snd (termEvaluateCommand_old hst c s))"
proof -
  have a: "same_queue s (run_callbacks_old cbs (s\<lparr>myTermHistoryPos := p, myTermHistory := hs, interp := i\<rparr>))"
    for cbs p hs i
    using run_callbacks_old_same[of "s\<lparr>myTermHistoryPos := p, myTermHistory := hs, interp := i\<rparr>" cbs]
    by (simp add: same_editor_def same_queue_def)
  have b: "same_queue s t \<Longrightarrow> same_queue s (terminalPrintInputLine (terminalWriteError_old x t))" for t x
    by (simp add: same_queue_def terminalPrintInputLine_upd terminalWriteError_old_def terminalWrite_upd)
  show ?thesis
    by (simp add: termEvaluateCommand_old_def Let_def a b split: prod.splits option.splits)
       (simp add: same_queue_def)
qed

lemma same_queue_wf:
  "same_queue s t \<Longrightarrow> wf_queue t = wf_queue s"
  "same_queue s t \<Longrightarrow> term_queued t = term_queued s"
  by (simp_all add: same_queue_def wf_queue_def term_queued_def)

lemma wf_queue_frame:
  "wf_queue (s\<lparr>myTerm := x\<rparr>) = wf_queue s"
  "wf_queue (s\<lparr>myTermLine := y\<rparr>) = wf_queue s"
  "term_queued (s\<lparr>myTerm := x\<rparr>) = term_queued s"
  "term_queued (s\<lparr>myTermLine := y\<rparr>) = term_queued s"
  by (simp_all add: wf_queue_def term_queued_def)

subsection \<open>Queueing a command\<close>

lemma termQueueCommand_queued:
  assumes wf: "wf_queue s"
  shows "wf_queue (termQueueCommand c e s)"
    and "term_queued (termQueueCommand c e s) = term_queued s @ [(c, e)]"
proof -
  let ?h = "commands s" and ?q = "myCmdQueue s"
  let ?as = "live_nodes ?h ?q"
  let ?r = "add (length ?h) (?h @ [\<lparr>command = c, toEcho = e, myNext = None\<rparr>], ?q)"
  from wf have inv: "queue_inv ?h ?q ?as" by (simp add: wf_queue_def)
  note a = add_inv[OF inv, of c e]
  have l: "live_nodes (fst ?r) (snd ?r) = ?as @ [length ?h]" by (rule live_nodes_inv[OF a(1)])
  have cm: "commands (termQueueCommand c e s) = fst ?r" and qu: "myCmdQueue (termQueueCommand c e s) = snd ?r"
    by (simp_all add: termQueueCommand_def DrawCommand_new_def Let_def setTimeout_pop_def split: prod.splits)
  show "wf_queue (termQueueCommand c e s)" using a(1) l by (simp add: wf_queue_def cm qu)
  show "term_queued (termQueueCommand c e s) = term_queued s @ [(c, e)]"
    using a(2) l by (simp add: term_queued_def queued_def cm qu case_prod_unfold)
qed

lemma termQueueCommand_frame:
  "myTerm (termQueueCommand c e s) = myTerm s"
  "myTermLine (termQueueCommand c e s) = myTermLine s"
  "myTermHistory (termQueueCommand c e s) = myTermHistory s"
  "myTermHistoryPos (termQueueCommand c e s) = myTermHistoryPos s"
  "myTermInCounter (termQueueCommand c e s) = myTermInCounter s"
  "myTermHello (termQueueCommand c e s) = myTermHello s"
  "myCmdTimeout (termQueueCommand c e s) = myCmdTimeout s"
  "interp (termQueueCommand c e s) = interp s"
  by (simp_all add: termQueueCommand_def Let_def setTimeout_pop_def split: prod.splits)

lemma wf_queue_empty: "wf_queue s \<Longrightarrow> isEmpty (myCmdQueue s) = (myLast (myCmdQueue s) = None)"
  by (auto simp: wf_queue_def queue_inv_def isEmpty_def)

lemma wf_queue_nonempty:
  "wf_queue s \<Longrightarrow> term_queued s = x # xs \<Longrightarrow> \<not> isEmpty (myCmdQueue s)"
  by (auto simp: wf_queue_def queue_inv_def isEmpty_def term_queued_def queued_def contents_def)

lemma termQueueCommand_no_timer:
  assumes wf: "wf_queue s" and ne: "\<not> isEmpty (myCmdQueue s)"
  shows "timers (termQueueCommand c e s) = timers s"
proof -
  from wf ne obtain l where l: "myLast (myCmdQueue s) = Some l"
    by (auto simp: wf_queue_empty)
  from ne have "myLength (myCmdQueue s) + 1 \<noteq> 1" by (simp add: isEmpty_def)
  with l show ?thesis
    by (simp add: termQueueCommand_def DrawCommand_new_def add_def extent_def)
qed

text \<open>
  C6. In a well-formed state, \<^verbatim>\<open>_termQueueCommand\<close> adds one pending drain timer
  exactly when the queue was empty before the call, and leaves the timers as they
  were otherwise; the queue was empty before the call exactly when its extent after
  the call is 1.
\<close>

theorem queue_command_schedules_iff_empty:
  "wf_queue s \<Longrightarrow>
     timers (termQueueCommand c e s) =
       (if isEmpty (myCmdQueue s) then timers s @ [myCmdTimeout s] else timers s) \<and>
     (isEmpty (myCmdQueue s) \<longleftrightarrow> extent (myCmdQueue (termQueueCommand c e s)) = 1)"
proof -
  assume wf: "wf_queue s"
  show ?thesis
  proof (cases "myLast (myCmdQueue s)")
    case None
    with wf_queue_empty[OF wf] show ?thesis
      by (simp add: termQueueCommand_def DrawCommand_new_def add_def extent_def setTimeout_pop_def)
  next
    case (Some l)
    from wf Some have "live_nodes (commands s) (myCmdQueue s) \<noteq> []"
      by (auto simp: wf_queue_def queue_inv_def split: if_splits)
    then have "1 \<le> length (live_nodes (commands s) (myCmdQueue s))"
      by (cases "live_nodes (commands s) (myCmdQueue s)") simp_all
    with wf have "myLength (myCmdQueue s) \<ge> 1"
      by (simp add: wf_queue_def queue_inv_def)
    with Some wf_queue_empty[OF wf] show ?thesis
      by (simp add: termQueueCommand_def DrawCommand_new_def add_def extent_def setTimeout_pop_def)
  qed
qed

theorem queue_command_schedules_iff_empty_witness:
  "wf_queue (DrawTerm_new ()) \<and> isEmpty (myCmdQueue (DrawTerm_new ())) \<and>
   timers (termQueueCommand ''a'' False (DrawTerm_new ())) = [10] \<and>
   extent (myCmdQueue (termQueueCommand ''a'' False (DrawTerm_new ()))) = 1 \<and>
   wf_queue (termQueueCommand ''a'' False (DrawTerm_new ())) \<and>
   \<not> isEmpty (myCmdQueue (termQueueCommand ''a'' False (DrawTerm_new ()))) \<and>
   timers (termQueueCommand ''b'' True (termQueueCommand ''a'' False (DrawTerm_new ()))) = [10] \<and>
   extent (myCmdQueue (termQueueCommand ''b'' True (termQueueCommand ''a'' False (DrawTerm_new ())))) = 2"
proof -
  have a: "wf_queue (DrawTerm_new ())" by code_simp
  have b: "wf_queue (termQueueCommand ''a'' False (DrawTerm_new ()))" by code_simp
  have c: "isEmpty (myCmdQueue (DrawTerm_new ()))"
    "timers (DrawTerm_new ()) = []" "myCmdTimeout (DrawTerm_new ()) = 10"
    "extent (myCmdQueue (termQueueCommand ''b'' True (termQueueCommand ''a'' False (DrawTerm_new ())))) = 2"
    by code_simp+
  from queue_command_schedules_iff_empty[OF a, of "''a''" False]
       queue_command_schedules_iff_empty[OF b, of "''b''" True] a b c
  show ?thesis by (simp split: if_splits)
qed

subsection \<open>The drain step\<close>

lemma dequeue_head:
  assumes wf: "wf_queue s" and q: "term_queued s = (c1, e1) # rest"
  shows "\<exists>a h q. pop (commands s, myCmdQueue s) = (Some a, h, q) \<and>
           command (h ! a) = c1 \<and> toEcho (h ! a) = e1 \<and>
           queue_inv h q (live_nodes h q) \<and> contents h (live_nodes h q) = rest"
proof -
  let ?h = "commands s" and ?q = "myCmdQueue s"
  from q obtain a as where as: "live_nodes ?h ?q = a # as"
    by (cases "live_nodes ?h ?q") (auto simp: term_queued_def queued_def contents_def)
  with wf have inv: "queue_inv ?h ?q (a # as)" by (simp add: wf_queue_def)
  obtain r h1 q1 where p: "pop (?h, ?q) = (r, h1, q1)" by (cases "pop (?h, ?q)")
  from pop_inv[OF inv] p have r: "r = Some a" and inv1: "queue_inv h1 q1 as"
    and c: "contents h1 (a # as) = contents ?h (a # as)" by simp_all
  from c q as have "command (h1 ! a) = c1" "toEcho (h1 ! a) = e1" "contents h1 as = rest"
    by (simp_all add: term_queued_def queued_def contents_Cons)
  with p r inv1 live_nodes_inv[OF inv1] show ?thesis by auto
qed

lemma before_evaluation_head:
  assumes wf: "wf_queue s" and q: "term_queued s = (c1, e1) # rest"
  shows "wf_queue (before_evaluation s)"
    and "term_queued (before_evaluation s) = rest"
    and "timers (before_evaluation s) = timers s"
    and "myCmdTimeout (before_evaluation s) = myCmdTimeout s"
    and "myTermHello (before_evaluation s) = myTermHello s"
    and "termPopCommandFromQueue hst s = pop_settle (termEvaluateCommand hst c1 (before_evaluation s))"
    and "termPopCommandFromQueue_old hst s =
           (case termEvaluateCommand_old hst c1 (before_evaluation s) of
              (Some theErr, s3) \<Rightarrow>
                (Some theErr, if \<not> isEmpty (myCmdQueue s3) then setTimeout_pop s3 else s3)
            | (None, s3) \<Rightarrow>
                (let s4 = terminalPrintInputLine s3
                 in (None, if \<not> isEmpty (myCmdQueue s4) then setTimeout_pop s4 else s4)))"
proof -
  from dequeue_head[OF wf q] obtain a h q' where
    p: "pop (commands s, myCmdQueue s) = (Some a, h, q')" and
    c: "command (h ! a) = c1" "toEcho (h ! a) = e1" and
    inv: "queue_inv h q' (live_nodes h q')" and r: "contents h (live_nodes h q') = rest"
    by blast
  have b: "before_evaluation s =
      (if e1 then terminalWrite c1 (s\<lparr>commands := h, myCmdQueue := q'\<rparr>)
       else s\<lparr>commands := h, myCmdQueue := q'\<rparr>)"
    using p c by (simp add: before_evaluation_def pop_echo_def)
  show "wf_queue (before_evaluation s)" using inv by (simp add: b wf_queue_def terminalWrite_upd)
  show "term_queued (before_evaluation s) = rest"
    using r by (simp add: b term_queued_def queued_def terminalWrite_upd)
  show "timers (before_evaluation s) = timers s" by (simp add: b terminalWrite_upd)
  show "myCmdTimeout (before_evaluation s) = myCmdTimeout s" by (simp add: b terminalWrite_upd)
  show "myTermHello (before_evaluation s) = myTermHello s" by (simp add: b terminalWrite_upd)
  have cmd: "command (commands (pop_echo a (s\<lparr>commands := h, myCmdQueue := q'\<rparr>)) ! a) = c1"
    using c by (simp add: pop_echo_def terminalWrite_upd)
  have pe: "pop_echo a (s\<lparr>commands := h, myCmdQueue := q'\<rparr>) = before_evaluation s"
    using p by (simp add: before_evaluation_def)
  show "termPopCommandFromQueue hst s = pop_settle (termEvaluateCommand hst c1 (before_evaluation s))"
    using p cmd pe by (simp add: termPopCommandFromQueue_def Let_def)
  show "termPopCommandFromQueue_old hst s =
           (case termEvaluateCommand_old hst c1 (before_evaluation s) of
              (Some theErr, s3) \<Rightarrow>
                (Some theErr, if \<not> isEmpty (myCmdQueue s3) then setTimeout_pop s3 else s3)
            | (None, s3) \<Rightarrow>
                (let s4 = terminalPrintInputLine s3
                 in (None, if \<not> isEmpty (myCmdQueue s4) then setTimeout_pop s4 else s4)))"
    using p cmd pe by (simp add: termPopCommandFromQueue_old_def Let_def)
qed

text \<open>
  The two handlers given to \<^verbatim>\<open>then\<close> and \<^verbatim>\<open>catch\<close>, on any state in which the
  terminal exists: this is what they do also when the promise settles after other
  events were handled.
\<close>

lemma pop_then_effect:
  "myTerm s = Some out \<Longrightarrow>
   pop_then s =
     s\<lparr>myTerm := Some (out @ [LFCR, prompt (myTermHello s) (myTermInCounter s + 1)]),
       myTermInCounter := myTermInCounter s + 1,
       timers := (if isEmpty (myCmdQueue s) then timers s else timers s @ [myCmdTimeout s])\<rparr>"
  by (simp add: pop_then_def Let_def terminalPrintInputLine_upd setTimeout_pop_def)

lemma pop_catch_effect:
  "myTerm s = Some out \<Longrightarrow>
   pop_catch theErr s =
     s\<lparr>myTerm := Some (out @
          [replace_LF (LFCR @ ESC # ''[31;1m'' @ error_toString theErr @ ESC # ''[0m''),
           LFCR, prompt (myTermHello s) (myTermInCounter s + 1)]),
       myTermInCounter := myTermInCounter s + 1,
       timers := (if isEmpty (myCmdQueue s) then timers s else timers s @ [myCmdTimeout s])\<rparr>"
  by (simp add: pop_catch_def Let_def terminalWriteError_def terminalWriteMultiline_upd
      terminalPrintInputLine_upd setTimeout_pop_def)

text \<open>
  When the promise of \<^verbatim>\<open>termEvaluateCommand\<close> is already rejected, in a well-formed
  state with at least two queued commands: the drain step writes the error in the
  error style, then the line break and a new prompt, and schedules one more drain with
  the configured delay; the second command is now the head of a well-formed queue, and
  the next drain step dequeues it and hands its text to \<^verbatim>\<open>termEvaluateCommand\<close>.
\<close>

lemma rejected_promise_continues_drain:
  assumes wf: "wf_queue s"
    and q: "term_queued s = (c1, e1) # (c2, e2) # rest"
    and ev: "termEvaluateCommand hst c1 (before_evaluation s) = (Rejected theErr, s3)"
    and tm: "myTerm s3 = Some out"
  shows "termPopCommandFromQueue hst s = (None, pop_catch theErr s3)"
    and "myTerm (snd (termPopCommandFromQueue hst s)) =
           Some (out @ [replace_LF (LFCR @ ESC # ''[31;1m'' @ error_toString theErr @ ESC # ''[0m''),
                        LFCR, prompt (myTermHello s) (myTermInCounter s3 + 1)])"
    and "timers (snd (termPopCommandFromQueue hst s)) = timers s @ [myCmdTimeout s]"
    and "wf_queue (snd (termPopCommandFromQueue hst s))"
    and "term_queued (snd (termPopCommandFromQueue hst s)) = (c2, e2) # rest"
    and "termPopCommandFromQueue hst (snd (termPopCommandFromQueue hst s)) =
           pop_settle (termEvaluateCommand hst c2
             (before_evaluation (snd (termPopCommandFromQueue hst s))))"
    and "term_queued (before_evaluation (snd (termPopCommandFromQueue hst s))) = rest"
proof -
  note b = before_evaluation_head[OF wf q]
  from termEvaluateCommand_same_queue[of "before_evaluation s" hst c1] ev
  have sq: "same_queue (before_evaluation s) s3" by simp
  from same_queue_wf[OF sq] b have wf3: "wf_queue s3" and q3: "term_queued s3 = (c2, e2) # rest"
    by simp_all
  from wf_queue_nonempty[OF wf3 q3] have ne: "\<not> isEmpty (myCmdQueue s3)" .
  from sq b have f: "timers s3 = timers s" "myCmdTimeout s3 = myCmdTimeout s"
    "myTermHello s3 = myTermHello s" by (simp_all add: same_queue_def)
  show s': "termPopCommandFromQueue hst s = (None, pop_catch theErr s3)"
    using b(6)[of hst] ev by (simp add: pop_settle_def)
  have pc: "pop_catch theErr s3 =
      s3\<lparr>myTerm := Some (out @ [replace_LF (LFCR @ ESC # ''[31;1m'' @ error_toString theErr @ ESC # ''[0m''),
                        LFCR, prompt (myTermHello s) (myTermInCounter s3 + 1)]),
         myTermInCounter := myTermInCounter s3 + 1,
         timers := timers s @ [myCmdTimeout s]\<rparr>"
    using ne f by (simp add: pop_catch_effect[OF tm])
  show "myTerm (snd (termPopCommandFromQueue hst s)) =
           Some (out @ [replace_LF (LFCR @ ESC # ''[31;1m'' @ error_toString theErr @ ESC # ''[0m''),
                        LFCR, prompt (myTermHello s) (myTermInCounter s3 + 1)])"
    by (simp add: s' pc)
  show "timers (snd (termPopCommandFromQueue hst s)) = timers s @ [myCmdTimeout s]"
    by (simp add: s' pc)
  show wf': "wf_queue (snd (termPopCommandFromQueue hst s))"
    using wf3 by (simp add: s' pc wf_queue_def)
  show q': "term_queued (snd (termPopCommandFromQueue hst s)) = (c2, e2) # rest"
    using q3 by (simp add: s' pc term_queued_def queued_def)
  note b' = before_evaluation_head[OF wf' q']
  show "termPopCommandFromQueue hst (snd (termPopCommandFromQueue hst s)) =
           pop_settle (termEvaluateCommand hst c2
             (before_evaluation (snd (termPopCommandFromQueue hst s))))"
    by (rule b'(6))
  show "term_queued (before_evaluation (snd (termPopCommandFromQueue hst s))) = rest"
    by (rule b'(2))
qed

text \<open>
  When the promise is still pending (an upload), the step ends with neither handler
  run: no prompt, no timer. \<open>pop_then_effect\<close> and \<open>pop_catch_effect\<close> say what the
  handler does when it runs later.
\<close>

lemma pending_promise_leaves_step:
  assumes wf: "wf_queue s" and q: "term_queued s = (c1, e1) # rest"
    and ev: "termEvaluateCommand hst c1 (before_evaluation s) = (Pending, s3)"
  shows "termPopCommandFromQueue hst s = (None, s3)"
  using before_evaluation_head(6)[OF wf q, of hst] ev by (simp add: pop_settle_def)

text \<open>
  The earlier revision handles a throw of the interpreter itself, on every host:
  \<^verbatim>\<open>termEvaluateCommand\<close> writes the error and the prompt in its own \<^verbatim>\<open>catch\<close> and
  throws again, \<^verbatim>\<open>_termPopCommandFromQueue\<close> schedules the next drain in its \<^verbatim>\<open>catch\<close>
  and throws again.
\<close>

lemma termEvaluateCommand_old_thrown:
  assumes "termEvaluateCommand_old hst c s = (Some theErr, s3)"
  shows "\<exists>t. same_queue s t \<and>
             s3 = terminalPrintInputLine (terminalWriteError_old (''Internal error: '' @ theErr) t)"
proof -
  have a: "same_queue s (run_callbacks_old cbs (s\<lparr>myTermHistoryPos := p, myTermHistory := hs, interp := i\<rparr>))"
    for cbs p hs i
    using run_callbacks_old_same[of "s\<lparr>myTermHistoryPos := p, myTermHistory := hs, interp := i\<rparr>" cbs]
    by (simp add: same_editor_def same_queue_def)
  from assms show ?thesis
    by (auto simp: termEvaluateCommand_old_def Let_def split: if_splits prod.splits option.splits
             intro!: exI a)
qed

lemma old_revision_schedules_after_throw:
  assumes wf: "wf_queue s"
    and q: "term_queued s = (c1, e1) # (c2, e2) # rest"
    and ev: "termEvaluateCommand_old hst c1 (before_evaluation s) = (Some theErr, s3)"
    and tm: "myTerm s3 = Some out"
  shows "termPopCommandFromQueue_old hst s = (Some theErr, s3\<lparr>timers := timers s @ [myCmdTimeout s]\<rparr>)"
    and "\<exists>out0. out = out0 @ [LFCR @ ESC # ''[31;1m'' @ ''Internal error: '' @ theErr @ ESC # ''[0m'',
                                LFCR, prompt (myTermHello s) (myTermInCounter s3)]"
    and "wf_queue (snd (termPopCommandFromQueue_old hst s))"
    and "term_queued (snd (termPopCommandFromQueue_old hst s)) = (c2, e2) # rest"
    and "termPopCommandFromQueue_old hst (snd (termPopCommandFromQueue_old hst s)) =
           (case termEvaluateCommand_old hst c2
                   (before_evaluation (snd (termPopCommandFromQueue_old hst s))) of
              (Some theErr, s3) \<Rightarrow>
                (Some theErr, if \<not> isEmpty (myCmdQueue s3) then setTimeout_pop s3 else s3)
            | (None, s3) \<Rightarrow>
                (let s4 = terminalPrintInputLine s3
                 in (None, if \<not> isEmpty (myCmdQueue s4) then setTimeout_pop s4 else s4)))"
proof -
  note b = before_evaluation_head[OF wf q]
  from termEvaluateCommand_old_same_queue[of "before_evaluation s" hst c1] ev
  have sq: "same_queue (before_evaluation s) s3" by simp
  from same_queue_wf[OF sq] b have wf3: "wf_queue s3" and q3: "term_queued s3 = (c2, e2) # rest"
    by simp_all
  from wf_queue_nonempty[OF wf3 q3] have ne: "\<not> isEmpty (myCmdQueue s3)" .
  from sq b have f: "timers s3 = timers s" "myCmdTimeout s3 = myCmdTimeout s"
    "myTermHello s3 = myTermHello s" by (simp_all add: same_queue_def)
  show s': "termPopCommandFromQueue_old hst s = (Some theErr, s3\<lparr>timers := timers s @ [myCmdTimeout s]\<rparr>)"
    using b(7)[of hst] ev ne f by (simp add: setTimeout_pop_def)
  from termEvaluateCommand_old_thrown[OF ev] obtain t where
    t: "s3 = terminalPrintInputLine (terminalWriteError_old (''Internal error: '' @ theErr) t)"
    by blast
  from tm show "\<exists>out0. out = out0 @ [LFCR @ ESC # ''[31;1m'' @ ''Internal error: '' @ theErr @ ESC # ''[0m'',
                                LFCR, prompt (myTermHello s) (myTermInCounter s3)]"
    unfolding f(3)[symmetric]
    by (cases "myTerm t")
       (auto simp: t terminalPrintInputLine_upd terminalWriteError_old_def terminalWrite_upd)
  show wf': "wf_queue (snd (termPopCommandFromQueue_old hst s))"
    using wf3 by (simp add: s' wf_queue_def)
  show q': "term_queued (snd (termPopCommandFromQueue_old hst s)) = (c2, e2) # rest"
    using q3 by (simp add: s' term_queued_def queued_def)
  show "termPopCommandFromQueue_old hst (snd (termPopCommandFromQueue_old hst s)) =
           (case termEvaluateCommand_old hst c2
                   (before_evaluation (snd (termPopCommandFromQueue_old hst s))) of
              (Some theErr, s3) \<Rightarrow>
                (Some theErr, if \<not> isEmpty (myCmdQueue s3) then setTimeout_pop s3 else s3)
            | (None, s3) \<Rightarrow>
                (let s4 = terminalPrintInputLine s3
                 in (None, if \<not> isEmpty (myCmdQueue s4) then setTimeout_pop s4 else s4)))"
    by (rule before_evaluation_head(7)[OF wf' q'])
qed

text \<open>
  A throw of the interpreter on a host without \<^verbatim>\<open>InternalError\<close>: the \<^verbatim>\<open>catch\<close> block
  of \<^verbatim>\<open>termEvaluateCommand\<close> throws itself, and the drain step ends with that error,
  the timers as they were and the second command still queued; since the queue is
  not empty, no later \<^verbatim>\<open>_termQueueCommand\<close> sets a timer either.
\<close>

lemma termEvaluateCommand_throws:
  assumes "theCmd \<noteq> []"
    and "\<not> startsWith theCmd ''jsdownload ''" and "\<not> startsWith theCmd ''jsdown ''"
    and "\<not> startsWith theCmd ''download ''" and "\<not> startsWith theCmd ''jsupload ''"
    and "\<not> startsWith theCmd ''upload ''"
    and "eval hst (interp s) theCmd = (i, cbs, Some theErr)"
  shows "termEvaluateCommand hst theCmd s =
           (if internalErrorDefined hst then Rejected (InternalError theErr)
            else Thrown (ReferenceError ''InternalError is not defined''),
            run_callbacks cbs
              (s\<lparr>myTermHistoryPos := -1, myTermHistory := myTermHistory s @ [theCmd], interp := i\<rparr>))"
  using assms by (simp add: termEvaluateCommand_def Let_def)

lemma thrown_evaluation_stalls_drain:
  assumes wf: "wf_queue s"
    and q: "term_queued s = (c1, e1) # (c2, e2) # rest"
    and ev: "termEvaluateCommand hst c1 (before_evaluation s) = (Thrown theErr, s3)"
  shows "termPopCommandFromQueue hst s = (Some theErr, s3)"
    and "timers s3 = timers s"
    and "wf_queue s3"
    and "term_queued s3 = (c2, e2) # rest"
    and "timers (termQueueCommand c e s3) = timers s"
proof -
  note b = before_evaluation_head[OF wf q]
  from termEvaluateCommand_same_queue[of "before_evaluation s" hst c1] ev
  have sq: "same_queue (before_evaluation s) s3" by simp
  from same_queue_wf[OF sq] b show wf3: "wf_queue s3"
    and q3: "term_queued s3 = (c2, e2) # rest" by simp_all
  from sq b show t: "timers s3 = timers s" by (simp add: same_queue_def)
  show "termPopCommandFromQueue hst s = (Some theErr, s3)"
    using b(6)[of hst] ev by (simp add: pop_settle_def)
  from wf_queue_nonempty[OF wf3 q3] have "\<not> isEmpty (myCmdQueue s3)" .
  from termQueueCommand_no_timer[OF wf3 this] t
  show "timers (termQueueCommand c e s3) = timers s" by simp
qed

lemma two_queued_contents: "term_queued two_queued = [(''bad'', False), (''echo'', True)]"
  by code_simp

lemma stalled_error:
  "fst (termPopCommandFromQueue example_host two_queued) =
     Some (ReferenceError ''InternalError is not defined'')"
  by code_simp

lemma stalled_written:
  "myTerm (snd (termPopCommandFromQueue example_host two_queued)) =
     Some [''Loading/preparing 'DRAWEXE.wasm'...'', ''b'', ''a'', ''d'', LFCR, ''bad'']"
  by code_simp

lemma stalled_counter:
  "myTermInCounter (snd (termPopCommandFromQueue example_host two_queued)) = 0"
  by code_simp

lemma stalled_timers:
  "timers (snd (termPopCommandFromQueue example_host two_queued)) = []"
  by code_simp

lemma stalled_queued:
  "term_queued (snd (termPopCommandFromQueue example_host two_queued)) = [(''echo'', True)]"
  by code_simp

lemma stalled_next:
  "timers (termQueueCommand ''next'' False
     (snd (termPopCommandFromQueue example_host two_queued))) = []"
  by code_simp

lemma old_revision_error:
  "fst (termPopCommandFromQueue_old example_host two_queued) = Some ''boom''"
  by code_simp

lemma old_revision_written:
  "myTerm (snd (termPopCommandFromQueue_old example_host two_queued)) =
     Some [''Loading/preparing 'DRAWEXE.wasm'...'', ''b'', ''a'', ''d'', LFCR, ''bad'',
           LFCR @ ESC # ''[31;1mInternal error: boom'' @ ESC # ''[0m'',
           LFCR, ESC # ''[32;1mDraw[1]>'' @ ESC # ''[0m '']"
  by code_simp

lemma old_revision_timers:
  "timers (snd (termPopCommandFromQueue_old example_host two_queued)) = [10]"
  by code_simp

lemma old_revision_queued:
  "term_queued (snd (termPopCommandFromQueue_old example_host two_queued)) = [(''echo'', True)]"
  by code_simp

lemma firefox_caught:
  "fst (termPopCommandFromQueue firefox_host two_queued) = None"
  by code_simp

lemma firefox_written:
  "myTerm (snd (termPopCommandFromQueue firefox_host two_queued)) =
     Some [''Loading/preparing 'DRAWEXE.wasm'...'', ''b'', ''a'', ''d'', LFCR, ''bad'',
           LFCR @ CHR 0x0D # ESC # ''[31;1mInternalError: boom'' @ ESC # ''[0m'',
           LFCR, ESC # ''[32;1mDraw[1]>'' @ ESC # ''[0m '']"
  by code_simp

lemma firefox_timers:
  "timers (snd (termPopCommandFromQueue firefox_host two_queued)) = [10]"
  by code_simp

text \<open>
  C4. In the promise-based revision a failing evaluation stops the drain loop on a
  host that does not define \<^verbatim>\<open>InternalError\<close>. The commands \<^verbatim>\<open>bad\<close> and \<^verbatim>\<open>echo\<close> are queued and the interpreter
  throws on \<^verbatim>\<open>bad\<close>. The drain step ends with a \<^verbatim>\<open>ReferenceError\<close>: after the
  interpreter's own output nothing is written, neither the error nor a prompt, no
  drain is scheduled, \<^verbatim>\<open>echo\<close> stays queued, and a command queued later sets no timer:
  the second command is never dequeued. The earlier revision, on the same input and
  host, writes the error and the prompt and schedules the drain, as the specification
  says; so does the promise-based revision on a host that defines \<^verbatim>\<open>InternalError\<close>.
\<close>

theorem drain_stalls_without_InternalError:
  "term_queued two_queued = [(''bad'', False), (''echo'', True)] \<and>
   fst (termPopCommandFromQueue example_host two_queued) =
     Some (ReferenceError ''InternalError is not defined'') \<and>
   myTerm (snd (termPopCommandFromQueue example_host two_queued)) =
     Some [''Loading/preparing 'DRAWEXE.wasm'...'', ''b'', ''a'', ''d'', LFCR, ''bad''] \<and>
   myTermInCounter (snd (termPopCommandFromQueue example_host two_queued)) = 0 \<and>
   timers (snd (termPopCommandFromQueue example_host two_queued)) = [] \<and>
   term_queued (snd (termPopCommandFromQueue example_host two_queued)) = [(''echo'', True)] \<and>
   timers (termQueueCommand ''next'' False
     (snd (termPopCommandFromQueue example_host two_queued))) = [] \<and>
   fst (termPopCommandFromQueue_old example_host two_queued) = Some ''boom'' \<and>
   myTerm (snd (termPopCommandFromQueue_old example_host two_queued)) =
     Some [''Loading/preparing 'DRAWEXE.wasm'...'', ''b'', ''a'', ''d'', LFCR, ''bad'',
           LFCR @ ESC # ''[31;1mInternal error: boom'' @ ESC # ''[0m'',
           LFCR, ESC # ''[32;1mDraw[1]>'' @ ESC # ''[0m ''] \<and>
   timers (snd (termPopCommandFromQueue_old example_host two_queued)) = [10] \<and>
   term_queued (snd (termPopCommandFromQueue_old example_host two_queued)) = [(''echo'', True)] \<and>
   fst (termPopCommandFromQueue firefox_host two_queued) = None \<and>
   myTerm (snd (termPopCommandFromQueue firefox_host two_queued)) =
     Some [''Loading/preparing 'DRAWEXE.wasm'...'', ''b'', ''a'', ''d'', LFCR, ''bad'',
           LFCR @ CHR 0x0D # ESC # ''[31;1mInternalError: boom'' @ ESC # ''[0m'',
           LFCR, ESC # ''[32;1mDraw[1]>'' @ ESC # ''[0m ''] \<and>
   timers (snd (termPopCommandFromQueue firefox_host two_queued)) = [10]"
  using two_queued_contents stalled_error stalled_written stalled_counter stalled_timers stalled_queued stalled_next
    old_revision_error old_revision_written old_revision_timers old_revision_queued firefox_caught firefox_written firefox_timers
  by (intro conjI)

subsection \<open>Evaluating the empty command\<close>

text \<open>
  C9. \<^verbatim>\<open>termEvaluateCommand ("")\<close> returns at once: a resolved promise in the
  promise-based revision, a normal return in the earlier one. The state is the one it
  was called in, so the history, the history cursor, the terminal and the interpreter
  are untouched, whatever the host's evaluator would have done.
\<close>

theorem evaluate_empty_command:
  "termEvaluateCommand hst [] s = (Resolved, s) \<and> termEvaluateCommand_old hst [] s = (None, s)"
  by (simp add: termEvaluateCommand_def termEvaluateCommand_old_def)

theorem evaluate_empty_command_witness:
  "termEvaluateCommand example_host [] history_ab = (Resolved, history_ab) \<and>
   termEvaluateCommand_old example_host [] history_ab = (None, history_ab)"
  using evaluate_empty_command[of example_host history_ab] by simp

subsection \<open>History navigation\<close>

lemma substring_take: "substring l 0 n = take n l"
  by (cases "n \<le> length l") (simp_all add: substring_def min_def)

lemma substring_butlast: "substring l 0 (length l - 1) = butlast l"
  by (simp add: substring_take butlast_conv_take)

lemma clear_input_upd:
  "clear_input s =
     s\<lparr>myTerm := map_option (\<lambda>out. out @ replicate (length (myTermLine s)) erase_seq) (myTerm s),
       myTermLine := []\<rparr>"
proof (induction s rule: clear_input.induct)
  case (1 s)
  show ?case
  proof (cases "myTermLine s = []")
    case True
    then show ?thesis by (cases "myTerm s") (simp_all add: clear_input.simps[of s])
  next
    case False
    then obtain n where n: "length (myTermLine s) = Suc n" by (cases "myTermLine s") auto
    let ?s' = "(terminalWrite erase_seq s)\<lparr>myTermLine := substring (myTermLine s) 0 (length (myTermLine s) - 1)\<rparr>"
    have "clear_input s = clear_input ?s'" using False by (simp add: clear_input.simps[of s])
    also have "\<dots> = ?s'\<lparr>myTerm := map_option (\<lambda>out. out @ replicate (length (myTermLine ?s')) erase_seq) (myTerm ?s'),
       myTermLine := []\<rparr>" using False by (intro "1.IH") simp
    also have "\<dots> = s\<lparr>myTerm := map_option (\<lambda>out. out @ replicate (length (myTermLine s)) erase_seq) (myTerm s),
       myTermLine := []\<rparr>"
      using n by (cases "myTerm s") (simp_all add: terminalWrite_upd substring_take)
    finally show ?thesis .
  qed
qed

lemma history_step_upd:
  assumes "myTermHistory s \<noteq> []"
  shows "history_step aDir s =
    (let p = (if myTermHistoryPos s \<noteq> -1
              then max (min (myTermHistoryPos s + aDir) (int (length (myTermHistory s)) - 1)) 0
              else int (length (myTermHistory s)) - 1);
         aHist = myTermHistory s ! nat p
     in s\<lparr>myTerm := map_option (\<lambda>out. out @ replicate (length (myTermLine s)) erase_seq @ [aHist]) (myTerm s),
          myTermLine := aHist, myTermHistoryPos := p\<rparr>)"
  using assms
  by (cases "myTerm s") (simp_all add: history_step_def clear_input_upd Let_def terminalWrite_upd)

text \<open>
  After the arrow case the cursor is an index of the history, whatever it was before
  and whatever the direction.
\<close>

lemma history_cursor_in_range:
  assumes "myTermHistory s \<noteq> []"
  shows "0 \<le> myTermHistoryPos (history_step aDir s)"
    and "myTermHistoryPos (history_step aDir s) < int (length (myTermHistory s))"
    and "myTermLine (history_step aDir s) =
           myTermHistory s ! nat (myTermHistoryPos (history_step aDir s))"
  using assms by (auto simp: history_step_upd Let_def min_def max_def)

text \<open>
  C2. With history \<^verbatim>\<open>a\<close>, \<^verbatim>\<open>b\<close>, an empty in-progress line and no history cursor,
  ArrowUp, ArrowUp, ArrowDown (all keydown) make the in-progress line \<^verbatim>\<open>b\<close>, then
  \<^verbatim>\<open>a\<close>, then \<^verbatim>\<open>b\<close>, with the cursor at 1, 0, 1: the first ArrowUp shows the newest
  entry. The cursor is clamped to the history: one more ArrowUp at the oldest entry
  leaves the cursor at 0 and the line \<^verbatim>\<open>a\<close>, one more ArrowDown at the newest leaves
  the cursor at 1 and the line \<^verbatim>\<open>b\<close>. Both revisions.
\<close>

theorem history_navigation:
  assumes h: "myTermHistory s = [''a'', ''b'']" and l: "myTermLine s = []"
    and p: "myTermHistoryPos s = -1"
    and up: "keyCode up = 38" "type up = ''keydown''"
    and down: "keyCode down = 40" "type down = ''keydown''"
  shows "(let s1 = snd (onTermKeyEvent up s);
              s2 = snd (onTermKeyEvent up s1);
              s3 = snd (onTermKeyEvent down s2)
          in myTermLine s1 = ''b'' \<and> myTermHistoryPos s1 = 1 \<and>
             myTermLine s2 = ''a'' \<and> myTermHistoryPos s2 = 0 \<and>
             myTermLine s3 = ''b'' \<and> myTermHistoryPos s3 = 1 \<and>
             myTermLine (snd (onTermKeyEvent up s2)) = ''a'' \<and>
             myTermHistoryPos (snd (onTermKeyEvent up s2)) = 0 \<and>
             myTermLine (snd (onTermKeyEvent down s3)) = ''b'' \<and>
             myTermHistoryPos (snd (onTermKeyEvent down s3)) = 1) \<and>
         (let s1 = snd (onTermKeyEvent_old up s);
              s2 = snd (onTermKeyEvent_old up s1);
              s3 = snd (onTermKeyEvent_old down s2)
          in myTermLine s1 = ''b'' \<and> myTermHistoryPos s1 = 1 \<and>
             myTermLine s2 = ''a'' \<and> myTermHistoryPos s2 = 0 \<and>
             myTermLine s3 = ''b'' \<and> myTermHistoryPos s3 = 1 \<and>
             myTermLine (snd (onTermKeyEvent_old up s2)) = ''a'' \<and>
             myTermHistoryPos (snd (onTermKeyEvent_old up s2)) = 0 \<and>
             myTermLine (snd (onTermKeyEvent_old down s3)) = ''b'' \<and>
             myTermHistoryPos (snd (onTermKeyEvent_old down s3)) = 1)"
proof -
  have u: "onTermKeyEvent up t = (False, history_step (-1) t)"
          "onTermKeyEvent_old up t = (False, history_step (-1) t)" for t :: "'a DrawTerm"
    using up by (simp_all add: onTermKeyEvent_def onTermKeyEvent_old_def)
  have d: "onTermKeyEvent down t = (False, history_step 1 t)"
          "onTermKeyEvent_old down t = (False, history_step 1 t)" for t :: "'a DrawTerm"
    using down by (simp_all add: onTermKeyEvent_def onTermKeyEvent_old_def)
  show ?thesis
    using h l p by (simp add: u d Let_def history_step_upd)
qed

theorem history_navigation_witness:
  "myTermHistory history_ab = [''a'', ''b''] \<and> myTermLine history_ab = [] \<and>
   myTermHistoryPos history_ab = -1 \<and>
   keyCode ArrowUp_keydown = 38 \<and> type ArrowUp_keydown = ''keydown'' \<and>
   keyCode ArrowDown_keydown = 40 \<and> type ArrowDown_keydown = ''keydown'' \<and>
   myTermLine (snd (onTermKeyEvent ArrowUp_keydown history_ab)) = ''b'' \<and>
   myTermLine (snd (onTermKeyEvent ArrowUp_keydown (snd (onTermKeyEvent ArrowUp_keydown history_ab)))) = ''a'' \<and>
   myTermLine (snd (onTermKeyEvent ArrowDown_keydown (snd (onTermKeyEvent ArrowUp_keydown
      (snd (onTermKeyEvent ArrowUp_keydown history_ab)))))) = ''b'' \<and>
   myTermHistoryPos (snd (onTermKeyEvent ArrowUp_keydown (snd (onTermKeyEvent ArrowUp_keydown
      (snd (onTermKeyEvent ArrowUp_keydown history_ab)))))) = 0 \<and>
   myTermHistoryPos (snd (onTermKeyEvent ArrowDown_keydown (snd (onTermKeyEvent ArrowDown_keydown
      (snd (onTermKeyEvent ArrowUp_keydown (snd (onTermKeyEvent ArrowUp_keydown history_ab)))))))) = 1"
proof -
  have h: "myTermHistory history_ab = [''a'', ''b'']" "myTermLine history_ab = []"
    "myTermHistoryPos history_ab = -1"
    by (simp_all add: history_ab_def DrawTerm_new_def)
  have e: "keyCode ArrowUp_keydown = 38" "type ArrowUp_keydown = ''keydown''"
    "keyCode ArrowDown_keydown = 40" "type ArrowDown_keydown = ''keydown''"
    by (simp_all add: ArrowUp_keydown_def ArrowDown_keydown_def)
  from history_navigation[OF h e] h e show ?thesis by (simp add: Let_def)
qed

text \<open>
  The lines \<^verbatim>\<open>a\<close>, \<^verbatim>\<open>b\<close>, \<^verbatim>\<open>a\<close> are not what these three keys give: the first
  ArrowUp already gives \<^verbatim>\<open>b\<close>.
\<close>

theorem history_navigation_counterexample:
  "\<not> (myTermLine (snd (onTermKeyEvent ArrowUp_keydown history_ab)) = ''a'' \<and>
      myTermLine (snd (onTermKeyEvent ArrowUp_keydown
        (snd (onTermKeyEvent ArrowUp_keydown history_ab)))) = ''b'' \<and>
      myTermLine (snd (onTermKeyEvent ArrowDown_keydown (snd (onTermKeyEvent ArrowUp_keydown
        (snd (onTermKeyEvent ArrowUp_keydown history_ab)))))) = ''a'')"
proof -
  have "myTermLine (snd (onTermKeyEvent ArrowUp_keydown history_ab)) = ''b''"
    by code_simp
  then show ?thesis by simp
qed

lemma old_revision_first_ArrowUp:
  "\<not> (myTermLine (snd (onTermKeyEvent_old ArrowUp_keydown history_ab)) = ''a'' \<and>
      myTermLine (snd (onTermKeyEvent_old ArrowUp_keydown
        (snd (onTermKeyEvent_old ArrowUp_keydown history_ab)))) = ''b'' \<and>
      myTermLine (snd (onTermKeyEvent_old ArrowDown_keydown (snd (onTermKeyEvent_old ArrowUp_keydown
        (snd (onTermKeyEvent_old ArrowUp_keydown history_ab)))))) = ''a'')"
proof -
  have "myTermLine (snd (onTermKeyEvent_old ArrowUp_keydown history_ab)) = ''b''"
    by code_simp
  then show ?thesis by simp
qed

subsection \<open>Character input\<close>

text \<open>
  C10. When the in-progress line is empty, the character \<^verbatim>\<open>0x7f\<close> changes nothing:
  the loop body returns the state and the count of completed lines it was given, at
  any point of an input, and so does the handler on that character alone. Nothing is
  written to the terminal, since the written texts are part of the state. Both
  revisions.
\<close>

theorem delete_on_empty_line:
  "myTermLine s = [] \<Longrightarrow>
     data_char hst (CHR 0x7F) (s, n) = (s, n) \<and> onTermDataInput hst [CHR 0x7F] s = s \<and>
     data_char_old hst (CHR 0x7F) (s, n) = (s, n) \<and> onTermDataInput_old hst [CHR 0x7F] s = s"
  by (simp add: data_char_def data_char_old_def onTermDataInput_def onTermDataInput_old_def)

theorem delete_on_empty_line_witness:
  "myTermLine (DrawTerm_new ()) = [] \<and>
   data_char example_host (CHR 0x7F) (DrawTerm_new (), 2) = (DrawTerm_new (), 2) \<and>
   onTermDataInput example_host [CHR 0x7F] (DrawTerm_new ()) = DrawTerm_new ()"
proof -
  have l: "myTermLine (DrawTerm_new ()) = []" by (simp add: DrawTerm_new_def)
  from delete_on_empty_line[OF l, of example_host 2] l show ?thesis by simp
qed

lemma endsWith_backslash: "endsWith l [CHR 0x5C] = (l \<noteq> [] \<and> last l = CHR 0x5C)"
proof (cases l rule: rev_cases)
  case Nil
  then show ?thesis by (simp add: endsWith_def)
next
  case (snoc ys y)
  then show ?thesis by (simp add: endsWith_def)
qed

text \<open>
  In the promise-based revision a carriage return after a line that ends in a
  backslash removes the backslash and goes on: nothing is queued, no timer is set, the
  count of completed lines stays, whatever \<^verbatim>\<open>isComplete\<close> says.
\<close>

lemma trailing_backslash_continues:
  assumes "endsWith (myTermLine s) [CHR 0x5C]"
  shows "data_char hst (CHR 0x0D) (s, n) =
           (if n = 0 then terminalWrite (LFCR @ ''> '') (s\<lparr>myTermLine := butlast (myTermLine s)\<rparr>)
            else s\<lparr>myTermLine := butlast (myTermLine s)\<rparr>, n)"
    and "myTermLine (fst (data_char hst (CHR 0x0D) (s, n))) = butlast (myTermLine s)"
    and "commands (fst (data_char hst (CHR 0x0D) (s, n))) = commands s"
    and "myCmdQueue (fst (data_char hst (CHR 0x0D) (s, n))) = myCmdQueue s"
    and "timers (fst (data_char hst (CHR 0x0D) (s, n))) = timers s"
    and "snd (data_char hst (CHR 0x0D) (s, n)) = n"
  using assms by (simp_all add: data_char_def Let_def substring_take butlast_conv_take terminalWrite_upd)

text \<open>
  C3. The earlier revision has no branch for the trailing backslash. With a host
  whose \<^verbatim>\<open>isComplete\<close> accepts the line, the input of the letter \<^verbatim>\<open>a\<close>, a backslash
  and a carriage return completes the line: the command made of \<^verbatim>\<open>a\<close> and the
  backslash is queued with echo flag false and the in-progress line is emptied. The
  promise-based revision, on the same input and host, queues nothing and keeps \<^verbatim>\<open>a\<close>
  as the in-progress line.
\<close>

theorem trailing_backslash_completed_old:
  "term_queued (onTermDataInput_old example_host [CHR ''a'', CHR 0x5C, CHR 0x0D] (DrawTerm_new ())) =
     [([CHR ''a'', CHR 0x5C], False)] \<and>
   myTermLine (onTermDataInput_old example_host [CHR ''a'', CHR 0x5C, CHR 0x0D] (DrawTerm_new ())) = [] \<and>
   term_queued (onTermDataInput example_host [CHR ''a'', CHR 0x5C, CHR 0x0D] (DrawTerm_new ())) = [] \<and>
   myTermLine (onTermDataInput example_host [CHR ''a'', CHR 0x5C, CHR 0x0D] (DrawTerm_new ())) = ''a''"
  by code_simp

lemma data_char_plain:
  "c \<noteq> CHR 0x7F \<Longrightarrow> c \<noteq> CHR 0x0D \<Longrightarrow>
   data_char hst c (s, 0) = ((terminalWrite [c] s)\<lparr>myTermLine := myTermLine s @ [c]\<rparr>, 0)"
  "c \<noteq> CHR 0x7F \<Longrightarrow> c \<noteq> CHR 0x0D \<Longrightarrow>
   data_char_old hst c (s, 0) = ((terminalWrite [c] s)\<lparr>myTermLine := myTermLine s @ [c]\<rparr>, 0)"
  by (simp_all add: data_char_def data_char_old_def Let_def terminalWrite_upd)

text \<open>
  C5. In a well-formed state with an empty in-progress line, and with
  \<^verbatim>\<open>isComplete ("echo")\<close> true, the input \<^verbatim>\<open>echo\<close> followed by a carriage return
  appends exactly one command to the queue, with text \<^verbatim>\<open>echo\<close> and echo flag false,
  and leaves the in-progress line empty. Both revisions.
\<close>

theorem echo_line_enqueued_once:
  assumes wf: "wf_queue s" and l: "myTermLine s = []" and c: "isComplete hst ''echo''"
  shows "term_queued (onTermDataInput hst (''echo'' @ [CHR 0x0D]) s) = term_queued s @ [(''echo'', False)] \<and>
         myTermLine (onTermDataInput hst (''echo'' @ [CHR 0x0D]) s) = [] \<and>
         term_queued (onTermDataInput_old hst (''echo'' @ [CHR 0x0D]) s) = term_queued s @ [(''echo'', False)] \<and>
         myTermLine (onTermDataInput_old hst (''echo'' @ [CHR 0x0D]) s) = []"
proof -
  let ?t = "(terminalWrite ''o'' (terminalWrite ''h'' (terminalWrite ''c'' (terminalWrite ''e'' s))))
              \<lparr>myTermLine := []\<rparr>"
  have wt: "wf_queue ?t" and qt: "term_queued ?t = term_queued s"
    using wf by (simp_all add: terminalWrite_upd wf_queue_frame)
  have n: "onTermDataInput hst (''echo'' @ [CHR 0x0D]) s = termQueueCommand ''echo'' False ?t"
    using l c
    by (simp add: onTermDataInput_def data_char_plain)
       (simp add: data_char_def terminalWrite_upd endsWith_backslash)
  have o: "onTermDataInput_old hst (''echo'' @ [CHR 0x0D]) s = termQueueCommand ''echo'' False ?t"
    using l c
    by (simp add: onTermDataInput_old_def data_char_plain)
       (simp add: data_char_old_def terminalWrite_upd)
  show ?thesis
    unfolding n o
    using termQueueCommand_queued[OF wt, of "''echo''" False] qt
    by (simp add: termQueueCommand_frame)
qed

theorem echo_line_enqueued_once_witness:
  "wf_queue (DrawTerm_new ()) \<and> myTermLine (DrawTerm_new ()) = [] \<and> isComplete example_host ''echo'' \<and>
   term_queued (onTermDataInput example_host (''echo'' @ [CHR 0x0D]) (DrawTerm_new ())) = [(''echo'', False)] \<and>
   myTermLine (onTermDataInput example_host (''echo'' @ [CHR 0x0D]) (DrawTerm_new ())) = []"
proof -
  have a: "wf_queue (DrawTerm_new ())" by code_simp
  have b: "myTermLine (DrawTerm_new ()) = []" by (simp add: DrawTerm_new_def)
  have c: "isComplete example_host ''echo''" by (simp add: example_host_def)
  have d: "term_queued (DrawTerm_new ()) = []" by code_simp
  from echo_line_enqueued_once[OF a b c] a b c d show ?thesis by simp
qed

subsection \<open>Reachable states are well formed\<close>

text \<open>
  The constructor yields a well-formed queue and every handler keeps it well formed,
  in both revisions, so the hypothesis \<open>wf_queue\<close> of the statements above holds in
  every state the terminal can be in.
\<close>

lemma wf_queue_new: "wf_queue (DrawTerm_new i)"
  by (simp add: wf_queue_def DrawTerm_new_def live_nodes_def DrawCommandQueue_new_def queue_inv_def)

lemma termQueueCommand_wf: "wf_queue s \<Longrightarrow> wf_queue (termQueueCommand c e s)"
  by (rule termQueueCommand_queued(1))

lemma data_char_wf: "wf_queue s \<Longrightarrow> wf_queue (fst (data_char hst c (s, n)))"
  by (simp add: data_char_def Let_def terminalWrite_upd wf_queue_frame termQueueCommand_wf)

lemma data_char_old_wf: "wf_queue s \<Longrightarrow> wf_queue (fst (data_char_old hst c (s, n)))"
  by (simp add: data_char_old_def Let_def terminalWrite_upd wf_queue_frame termQueueCommand_wf)

lemma foldl_data_char_wf:
  "wf_queue (fst sn) \<Longrightarrow> wf_queue (fst (foldl (\<lambda>sn aChar. data_char hst aChar sn) sn cs))"
proof (induction cs arbitrary: sn)
  case Nil
  then show ?case by simp
next
  case (Cons c cs)
  obtain s n where sn: "sn = (s, n)" by (cases sn)
  with Cons.prems have "wf_queue (fst (data_char hst c sn))" by (simp add: data_char_wf)
  then show ?case by (simp add: Cons.IH)
qed

lemma foldl_data_char_old_wf:
  "wf_queue (fst sn) \<Longrightarrow> wf_queue (fst (foldl (\<lambda>sn aChar. data_char_old hst aChar sn) sn cs))"
proof (induction cs arbitrary: sn)
  case Nil
  then show ?case by simp
next
  case (Cons c cs)
  obtain s n where sn: "sn = (s, n)" by (cases sn)
  with Cons.prems have "wf_queue (fst (data_char_old hst c sn))" by (simp add: data_char_old_wf)
  then show ?case by (simp add: Cons.IH)
qed

lemma onTermDataInput_wf:
  "wf_queue s \<Longrightarrow> wf_queue (onTermDataInput hst theEvent s)"
  "wf_queue s \<Longrightarrow> wf_queue (onTermDataInput_old hst theEvent s)"
  using foldl_data_char_wf[of "(s, 0)" hst theEvent] foldl_data_char_old_wf[of "(s, 0)" hst theEvent]
  by (simp_all add: onTermDataInput_def onTermDataInput_old_def)

lemma pop_settle_same_queue:
  "wf_queue s \<Longrightarrow> wf_queue (snd (pop_settle (p, s)))"
  by (cases p)
     (simp_all add: pop_settle_def pop_then_def pop_catch_def Let_def setTimeout_pop_def
        terminalPrintInputLine_upd terminalWriteError_def terminalWriteMultiline_upd wf_queue_def)

lemma termPopCommandFromQueue_wf:
  assumes wf: "wf_queue s"
  shows "wf_queue (snd (termPopCommandFromQueue hst s))"
    and "wf_queue (snd (termPopCommandFromQueue_old hst s))"
proof -
  show "wf_queue (snd (termPopCommandFromQueue hst s))"
  proof (cases "term_queued s")
    case Nil
    then have "live_nodes (commands s) (myCmdQueue s) = []"
      by (simp add: term_queued_def queued_def contents_def)
    with wf have "pop (commands s, myCmdQueue s) = (None, commands s, myCmdQueue s)"
      by (simp add: wf_queue_def pop_empty)
    with wf show ?thesis by (simp add: termPopCommandFromQueue_def)
  next
    case (Cons x xs)
    obtain c1 e1 where x: "x = (c1, e1)" by (cases x)
    note b = before_evaluation_head[OF wf Cons[unfolded x]]
    obtain p s3 where ev: "termEvaluateCommand hst c1 (before_evaluation s) = (p, s3)"
      by (cases "termEvaluateCommand hst c1 (before_evaluation s)")
    from termEvaluateCommand_same_queue[of "before_evaluation s" hst c1] ev
    have "same_queue (before_evaluation s) s3" by simp
    with b(1) have "wf_queue s3" by (simp add: same_queue_wf)
    then show ?thesis by (simp add: b(6) ev pop_settle_same_queue)
  qed
  show "wf_queue (snd (termPopCommandFromQueue_old hst s))"
  proof (cases "term_queued s")
    case Nil
    then have "live_nodes (commands s) (myCmdQueue s) = []"
      by (simp add: term_queued_def queued_def contents_def)
    with wf have "pop (commands s, myCmdQueue s) = (None, commands s, myCmdQueue s)"
      by (simp add: wf_queue_def pop_empty)
    with wf show ?thesis by (simp add: termPopCommandFromQueue_old_def)
  next
    case (Cons x xs)
    obtain c1 e1 where x: "x = (c1, e1)" by (cases x)
    note b = before_evaluation_head[OF wf Cons[unfolded x]]
    obtain r s3 where ev: "termEvaluateCommand_old hst c1 (before_evaluation s) = (r, s3)"
      by (cases "termEvaluateCommand_old hst c1 (before_evaluation s)")
    from termEvaluateCommand_old_same_queue[of "before_evaluation s" hst c1] ev
    have "same_queue (before_evaluation s) s3" by simp
    with b(1) have "wf_queue s3" by (simp add: same_queue_wf)
    then show ?thesis
      by (cases r) (simp_all add: b(7) ev Let_def setTimeout_pop_def terminalPrintInputLine_upd wf_queue_def)
  qed
qed

lemma onTermKeyEvent_wf:
  "wf_queue s \<Longrightarrow> wf_queue (snd (onTermKeyEvent ev s))"
  "wf_queue s \<Longrightarrow> wf_queue (snd (onTermKeyEvent_old ev s))"
  by (simp_all add: onTermKeyEvent_def onTermKeyEvent_old_def history_step_def Let_def
      clear_input_upd terminalWrite_upd wf_queue_def)

end
